theory Spec2Isabelle
  imports Main
begin

section \<open>Strings\<close>

text \<open>
  Python strings are modelled as byte strings. \<open>str.lower\<close> is modelled on the ASCII
  letters; the two allowed domains are pure ASCII and contain no letter that a non-ASCII
  code point lower-cases to, so membership in the allowed domains is not affected.
\<close>

definition lower_char :: "char \<Rightarrow> char" where
  "lower_char c =
     (case map_of (zip ''ABCDEFGHIJKLMNOPQRSTUVWXYZ'' ''abcdefghijklmnopqrstuvwxyz'') c of
        Some l \<Rightarrow> l
      | None \<Rightarrow> c)"

definition lower :: "string \<Rightarrow> string" where
  "lower s = map lower_char s"

text \<open>\<open>s.split(sep)\<close> for a one-character separator: never the empty list.\<close>

fun split_chr :: "char \<Rightarrow> string \<Rightarrow> string list" where
  "split_chr sep [] = [[]]"
| "split_chr sep (c # cs) =
     (let r = split_chr sep cs in if c = sep then [] # r else (c # hd r) # tl r)"

text \<open>\<open>sep.join(xs)\<close>.\<close>

fun join :: "string \<Rightarrow> string list \<Rightarrow> string" where
  "join sep [] = []"
| "join sep [x] = x"
| "join sep (x # y # ys) = x @ sep @ join sep (y # ys)"

text \<open>The ASCII characters that \<open>str.isspace\<close> accepts and \<open>str.strip()\<close> removes.\<close>

definition is_space :: "char \<Rightarrow> bool" where
  "is_space c =
     (c \<in> set [CHR '' '', CHR 0x09, CHR 0x0A, CHR 0x0B, CHR 0x0C, CHR 0x0D,
               CHR 0x1C, CHR 0x1D, CHR 0x1E, CHR 0x1F])"

text \<open>\<open>s.strip()\<close>.\<close>

definition strip :: "string \<Rightarrow> string" where
  "strip s = rev (dropWhile is_space (rev (dropWhile is_space s)))"

subsection \<open>Decimal formatting\<close>

definition digit_char :: "nat \<Rightarrow> char" where
  "digit_char d = ''0123456789'' ! d"

fun dec :: "nat \<Rightarrow> string" where
  "dec n = (if n < 10 then [digit_char n] else dec (n div 10) @ [digit_char (n mod 10)])"

declare dec.simps [simp del]

definition zfill :: "nat \<Rightarrow> string \<Rightarrow> string" where
  "zfill w s = replicate (w - length s) (CHR ''0'') @ s"

text \<open>The format specification \<open>:06d\<close>: sign-aware zero padding to a minimum width of six.\<close>

definition format_06d :: "int \<Rightarrow> string" where
  "format_06d n =
     (if n < 0 then CHR ''-'' # zfill 5 (dec (nat (- n))) else zfill 6 (dec (nat n)))"

text \<open>Reading a decimal string back, as \<open>int(s)\<close> does on a string of digits.\<close>

definition digit_val :: "char \<Rightarrow> nat" where
  "digit_val c =
     (case map_of (zip ''0123456789'' [0, 1, 2, 3, 4, 5, 6, 7, 8, 9]) c of
        Some d \<Rightarrow> d
      | None \<Rightarrow> 0)"

definition int_of_dec :: "string \<Rightarrow> nat" where
  "int_of_dec s = foldl (\<lambda>a c. 10 * a + digit_val c) 0 s"

definition is_digit :: "char \<Rightarrow> bool" where
  "is_digit c = (c \<in> set ''0123456789'')"

section \<open>One-time codes\<close>

text \<open>
  \<open>f"{secrets.randbelow(900000) + 100000:06d}"\<close>, in \<open>EnterpriseAuth.generate_otp\<close> and in
  the backend's \<open>generate_otp\<close>. The argument is the value \<open>secrets.randbelow(900000)\<close>
  returned, a number below 900000.
\<close>

definition generate_otp_code :: "nat \<Rightarrow> string" where
  "generate_otp_code r = format_06d (int r + 100000)"

text \<open>\<open>secrets.randbelow(n)\<close>: a value below \<open>n\<close>, drawn from the entropy of the call.\<close>

definition randbelow :: "nat \<Rightarrow> nat \<Rightarrow> nat" where
  "randbelow entropy n = entropy mod n"

section \<open>The enterprise store\<close>

text \<open>
  The tables \<open>init_database\<close> creates, one record per row. Times (\<open>datetime\<close> values and SQL
  timestamps) are integers, in microseconds. A column that may be NULL is an option.
\<close>

type_synonym time = int

record user_row =
  u_id :: nat
  u_email :: string
  u_full_name :: string
  u_department :: string
  u_company_domain :: string
  u_is_active :: bool
  u_is_admin :: bool
  u_created_at :: time
  u_last_login :: "time option"
  u_login_count :: nat

record otp_row =
  o_id :: nat
  o_email :: string
  o_otp_code :: string
  o_created_at :: time
  o_expires_at :: time
  o_is_used :: bool
  o_attempts :: nat

record session_row =
  s_id :: nat
  s_user_id :: nat
  s_session_token :: string
  s_created_at :: time
  s_expires_at :: time
  s_is_active :: bool
  s_last_activity :: time
  s_ip_address :: "string option"
  s_user_agent :: "string option"

record audit_row =
  a_id :: nat
  a_user_id :: "nat option"
  a_action :: string
  a_details :: string
  a_ip_address :: "string option"
  a_timestamp :: time

record company_row =
  c_id :: nat
  c_domain :: string
  c_company_name :: string
  c_admin_email :: string
  c_smtp_server :: "string option"
  c_smtp_port :: nat
  c_smtp_username :: "string option"
  c_smtp_password :: "string option"
  c_is_active :: bool
  c_created_at :: time

text \<open>
  The database file: the five tables in row order, and for each AUTOINCREMENT table the
  largest row id it ever used (SQLite's \<open>sqlite_sequence\<close>).
\<close>

record database =
  users :: "user_row list"
  otp_codes :: "otp_row list"
  user_sessions :: "session_row list"
  audit_log :: "audit_row list"
  company_settings :: "company_row list"
  seq_users :: nat
  seq_otp_codes :: nat
  seq_user_sessions :: nat
  seq_audit_log :: nat
  seq_company_settings :: nat

definition empty_database :: database where
  "empty_database =
     \<lparr>users = [], otp_codes = [], user_sessions = [], audit_log = [], company_settings = [],
      seq_users = 0, seq_otp_codes = 0, seq_user_sessions = 0, seq_audit_log = 0,
      seq_company_settings = 0\<rparr>"

text \<open>The row id an AUTOINCREMENT insert gets: one more than every id used so far.\<close>

definition next_rowid :: "nat \<Rightarrow> nat list \<Rightarrow> nat" where
  "next_rowid seq ids = Suc (fold max ids seq)"

text \<open>
  What one call of an operation gets from outside the program: the clock, the random
  sources, and whether the database engine fails.
  \<^item> \<open>now\<close>: \<open>datetime.now()\<close>; an operation that reads the clock twice gets the same value;
  \<^item> \<open>current_timestamp\<close>: SQLite's \<open>CURRENT_TIMESTAMP\<close>;
  \<^item> \<open>entropy\<close>: feeds \<open>secrets.randbelow\<close>;
  \<^item> \<open>token_urlsafe\<close>: the value of \<open>secrets.token_urlsafe(32)\<close>;
  \<^item> \<open>db_fault\<close>: a \<open>sqlite3\<close> call on the operation's own connection raises before the
    commit (the pending changes of the connection are then lost);
  \<^item> \<open>company_db_fault\<close>: the query of \<open>get_company_info\<close>, which opens a connection of its
    own, raises.
\<close>

record env =
  now :: time
  current_timestamp :: time
  entropy :: nat
  token_urlsafe :: string
  db_fault :: bool
  company_db_fault :: bool

datatype exn = OperationalError | IntegrityError

text \<open>The dictionaries the operations return; a key that is absent is \<open>None\<close>.\<close>

record user_data =
  ud_user_id :: nat
  ud_email :: string
  ud_full_name :: string
  ud_department :: string
  ud_company_domain :: string
  ud_session_expires :: time

record response =
  success :: bool
  message :: "string option"
  r_user_id :: "nat option"
  r_expires_in_minutes :: "nat option"
  r_session_token :: "string option"
  r_user_data :: "user_data option"

definition failure :: "string \<Rightarrow> response" where
  "failure msg =
     \<lparr>success = False, message = Some msg, r_user_id = None, r_expires_in_minutes = None,
      r_session_token = None, r_user_data = None\<rparr>"

definition ALLOWED_DOMAINS :: "string list" where
  "ALLOWED_DOMAINS = [''hhamedicine.com'', ''hssmedicine.com'']"

definition OTP_EXPIRY_MINUTES :: nat where
  "OTP_EXPIRY_MINUTES = 10"

definition SESSION_EXPIRY_HOURS :: nat where
  "SESSION_EXPIRY_HOURS = 8"

definition timedelta_minutes :: "nat \<Rightarrow> time" where
  "timedelta_minutes m = int m * 60000000"

definition timedelta_hours :: "nat \<Rightarrow> time" where
  "timedelta_hours h = int h * 3600000000"

section \<open>EnterpriseAuth\<close>

subsection \<open>init_database\<close>

text \<open>\<open>INSERT OR IGNORE INTO company_settings\<close>: the domain column is UNIQUE.\<close>

definition insert_company :: "time \<Rightarrow> string \<times> string \<times> string \<Rightarrow> database \<Rightarrow> database" where
  "insert_company ts company s =
     (case company of (domain, company_name, admin_email) \<Rightarrow>
        if domain \<in> set (map c_domain (company_settings s)) then s
        else
          (let rid = next_rowid (seq_company_settings s) (map c_id (company_settings s))
           in s\<lparr>company_settings := company_settings s @
                  [\<lparr>c_id = rid, c_domain = domain, c_company_name = company_name,
                    c_admin_email = admin_email, c_smtp_server = None, c_smtp_port = 587,
                    c_smtp_username = None, c_smtp_password = None, c_is_active = True,
                    c_created_at = ts\<rparr>],
                seq_company_settings := rid\<rparr>))"

definition setup_default_companies :: "time \<Rightarrow> database \<Rightarrow> database" where
  "setup_default_companies ts s =
     fold (insert_company ts)
       [(''hhamedicine.com'', ''HHA Medicine'', ''admin@hhamedicine.com''),
        (''hssmedicine.com'', ''HSS Medicine'', ''admin@hssmedicine.com'')] s"

text \<open>
  The handler of \<open>init_database\<close> logs the error and raises it again: the exception leaves
  the function (and the constructor of \<open>EnterpriseAuth\<close>).
\<close>

definition init_database :: "env \<Rightarrow> database \<Rightarrow> exn + database" where
  "init_database e s =
     (if db_fault e then Inl OperationalError
      else Inr (setup_default_companies (current_timestamp e) s))"

subsection \<open>validate_email_domain\<close>

definition validate_email_domain :: "string \<Rightarrow> bool \<times> string" where
  "validate_email_domain email =
     (if email = [] \<or> CHR ''@'' \<notin> set email then (False, ''Invalid email format'')
      else
        (let domain = lower (split_chr (CHR ''@'') email ! 1)
         in if domain \<notin> set ALLOWED_DOMAINS
            then (False, ''Access restricted to '' @ join '' and '' ALLOWED_DOMAINS
                           @ '' employees only'')
            else (True, domain)))"

subsection \<open>get_company_info\<close>

definition get_company_info :: "env \<Rightarrow> database \<Rightarrow> string \<Rightarrow> company_row option" where
  "get_company_info e s domain =
     (if company_db_fault e then None
      else List.find (\<lambda>c. c_domain c = domain \<and> c_is_active c) (company_settings s))"

subsection \<open>The audit trail\<close>

definition log_audit :: "env \<Rightarrow> nat \<Rightarrow> string \<Rightarrow> string \<Rightarrow> database \<Rightarrow> database" where
  "log_audit e uid action details s =
     (let rid = next_rowid (seq_audit_log s) (map a_id (audit_log s))
      in s\<lparr>audit_log := audit_log s @
             [\<lparr>a_id = rid, a_user_id = Some uid, a_action = action, a_details = details,
               a_ip_address = None, a_timestamp = current_timestamp e\<rparr>],
           seq_audit_log := rid\<rparr>)"

subsection \<open>register_user\<close>

text \<open>
  The body of the \<open>try\<close> block: \<open>Inl\<close> is an exception raised inside it, \<open>Inr\<close> the committed
  database and the dictionary returned.
\<close>

definition register_user_body ::
  "env \<Rightarrow> database \<Rightarrow> string \<Rightarrow> string \<Rightarrow> string \<Rightarrow> exn + database \<times> response" where
  "register_user_body e s email full_name department =
     (case validate_email_domain email of
        (False, err) \<Rightarrow> Inr (s, failure err)
      | (True, domain) \<Rightarrow>
          (case get_company_info e s domain of
             None \<Rightarrow> Inr (s, failure (''Company configuration not found for domain: '' @ domain))
           | Some company_info \<Rightarrow>
               if db_fault e then Inl OperationalError
               else if lower email \<in> set (map u_email (users s))
               then Inr (s, failure ''User already registered. Please use login instead.'')
               else
                 (let uid = next_rowid (seq_users s) (map u_id (users s));
                      s1 = s\<lparr>users := users s @
                             [\<lparr>u_id = uid, u_email = lower email, u_full_name = strip full_name,
                               u_department = strip department, u_company_domain = domain,
                               u_is_active = True, u_is_admin = False,
                               u_created_at = current_timestamp e, u_last_login = None,
                               u_login_count = 0\<rparr>],
                           seq_users := uid\<rparr>;
                      s2 = log_audit e uid ''USER_REGISTERED''
                             (''New user registered: '' @ email) s1
                  in Inr (s2,
                       \<lparr>success = True,
                        message = Some (''Registration successful! Welcome to ''
                                        @ c_company_name company_info),
                        r_user_id = Some uid, r_expires_in_minutes = None,
                        r_session_token = None, r_user_data = None\<rparr>))))"

text \<open>\<open>except Exception\<close>: the error is logged and a dictionary is returned.\<close>

definition register_user ::
  "env \<Rightarrow> database \<Rightarrow> string \<Rightarrow> string \<Rightarrow> string \<Rightarrow> database \<times> response" where
  "register_user e s email full_name department =
     (case register_user_body e s email full_name department of
        Inl ex \<Rightarrow> (s, failure ''Registration failed. Please try again.'')
      | Inr res \<Rightarrow> res)"

subsection \<open>generate_otp\<close>

text \<open>
  \<open>send_otp_email\<close> looks the company up under the domain as typed (not lower-cased) and
  writes the mail to a file; an error while writing is caught inside
  \<open>_save_email_to_file\<close>.
\<close>

definition send_otp_email :: "env \<Rightarrow> database \<Rightarrow> string \<Rightarrow> bool" where
  "send_otp_email e s email =
     (let parts = split_chr (CHR ''@'') email
      in if length parts < 2 then False
         else (case get_company_info e s (parts ! 1) of None \<Rightarrow> False | Some _ \<Rightarrow> True))"

text \<open>\<open>UPDATE otp_codes SET is_used = 1 WHERE email = ? AND is_used = 0\<close>.\<close>

definition deactivate_otps :: "string \<Rightarrow> otp_row list \<Rightarrow> otp_row list" where
  "deactivate_otps em rows =
     map (\<lambda>r. if o_email r = em \<and> \<not> o_is_used r then r\<lparr>o_is_used := True\<rparr> else r) rows"

definition generate_otp_body :: "env \<Rightarrow> database \<Rightarrow> string \<Rightarrow> exn + database \<times> response" where
  "generate_otp_body e s email =
     (case validate_email_domain email of
        (False, err) \<Rightarrow> Inr (s, failure err)
      | (True, domain) \<Rightarrow>
          (let otp_code = generate_otp_code (randbelow (entropy e) 900000);
               expires_at = now e + timedelta_minutes OTP_EXPIRY_MINUTES
           in if db_fault e then Inl OperationalError
              else
                (let rows = deactivate_otps (lower email) (otp_codes s);
                     rid = next_rowid (seq_otp_codes s) (map o_id rows);
                     s1 = s\<lparr>otp_codes := rows @
                            [\<lparr>o_id = rid, o_email = lower email, o_otp_code = otp_code,
                              o_created_at = current_timestamp e, o_expires_at = expires_at,
                              o_is_used = False, o_attempts = 0\<rparr>],
                          seq_otp_codes := rid\<rparr>
                 in if send_otp_email e s1 email
                    then Inr (s1,
                           \<lparr>success = True,
                            message = Some (''OTP sent to '' @ email @ ''. Valid for ''
                                            @ dec OTP_EXPIRY_MINUTES @ '' minutes.''),
                            r_user_id = None,
                            r_expires_in_minutes = Some OTP_EXPIRY_MINUTES,
                            r_session_token = None, r_user_data = None\<rparr>)
                    else Inr (s1, failure ''Failed to send OTP email. Please try again.''))))"

definition generate_otp :: "env \<Rightarrow> database \<Rightarrow> string \<Rightarrow> database \<times> response" where
  "generate_otp e s email =
     (case generate_otp_body e s email of
        Inl ex \<Rightarrow> (s, failure ''Failed to generate OTP. Please try again.'')
      | Inr res \<Rightarrow> res)"

subsection \<open>verify_otp\<close>

text \<open>
  \<open>SELECT ... WHERE email = ? AND otp_code = ? AND is_used = 0 ORDER BY created_at DESC
  LIMIT 1\<close>: the matching row created last; among rows created at the same time, the first
  in table order.
\<close>

fun latest_created :: "otp_row \<Rightarrow> otp_row list \<Rightarrow> otp_row" where
  "latest_created best [] = best"
| "latest_created best (r # rs) =
     latest_created (if o_created_at best < o_created_at r then r else best) rs"

definition select_otp :: "database \<Rightarrow> string \<Rightarrow> string \<Rightarrow> otp_row option" where
  "select_otp s em code =
     (case filter (\<lambda>r. o_email r = em \<and> o_otp_code r = code \<and> \<not> o_is_used r) (otp_codes s) of
        [] \<Rightarrow> None
      | r # rs \<Rightarrow> Some (latest_created r rs))"

text \<open>\<open>UPDATE otp_codes SET attempts = attempts + 1 WHERE email = ? AND is_used = 0\<close>.\<close>

definition increment_attempts :: "string \<Rightarrow> otp_row list \<Rightarrow> otp_row list" where
  "increment_attempts em rows =
     map (\<lambda>r. if o_email r = em \<and> \<not> o_is_used r then r\<lparr>o_attempts := o_attempts r + 1\<rparr> else r)
       rows"

text \<open>\<open>UPDATE otp_codes SET is_used = 1 WHERE id = ?\<close>.\<close>

definition mark_used :: "nat \<Rightarrow> otp_row list \<Rightarrow> otp_row list" where
  "mark_used rid rows = map (\<lambda>r. if o_id r = rid then r\<lparr>o_is_used := True\<rparr> else r) rows"

text \<open>
  When no user has the email, the connection is closed without a commit: the update that
  marked the code used is lost with it. The session token column is UNIQUE: inserting a
  token that is already stored raises.
\<close>

definition verify_otp_body ::
  "env \<Rightarrow> database \<Rightarrow> string \<Rightarrow> string \<Rightarrow> exn + database \<times> response" where
  "verify_otp_body e s email otp_code =
     (if db_fault e then Inl OperationalError
      else
        (case select_otp s (lower email) otp_code of
           None \<Rightarrow>
             Inr (s\<lparr>otp_codes := increment_attempts (lower email) (otp_codes s)\<rparr>,
                  failure ''Invalid OTP code. Please check and try again.'')
         | Some otp_record \<Rightarrow>
             if now e > o_expires_at otp_record
             then Inr (s\<lparr>otp_codes := mark_used (o_id otp_record) (otp_codes s)\<rparr>,
                       failure ''OTP has expired. Please request a new one.'')
             else if o_attempts otp_record \<ge> 3
             then Inr (s\<lparr>otp_codes := mark_used (o_id otp_record) (otp_codes s)\<rparr>,
                       failure ''Too many failed attempts. Please request a new OTP.'')
             else
               (case List.find (\<lambda>u. u_email u = lower email) (users s) of
                  None \<Rightarrow> Inr (s, failure ''User not found. Please register first.'')
                | Some u \<Rightarrow>
                    if token_urlsafe e \<in> set (map s_session_token (user_sessions s))
                    then Inl IntegrityError
                    else
                      (let session_expires = now e + timedelta_hours SESSION_EXPIRY_HOURS;
                           sid = next_rowid (seq_user_sessions s) (map s_id (user_sessions s));
                           s1 = s\<lparr>otp_codes := mark_used (o_id otp_record) (otp_codes s),
                                 user_sessions := user_sessions s @
                                   [\<lparr>s_id = sid, s_user_id = u_id u,
                                     s_session_token = token_urlsafe e,
                                     s_created_at = current_timestamp e,
                                     s_expires_at = session_expires, s_is_active = True,
                                     s_last_activity = current_timestamp e,
                                     s_ip_address = None, s_user_agent = None\<rparr>],
                                 seq_user_sessions := sid,
                                 users := map (\<lambda>x. if u_id x = u_id u
                                                 then x\<lparr>u_last_login := Some (current_timestamp e),
                                                        u_login_count := u_login_count x + 1\<rparr>
                                                 else x) (users s)\<rparr>;
                           s2 = log_audit e (u_id u) ''LOGIN_SUCCESS''
                                  (''Successful OTP login from '' @ email) s1
                       in Inr (s2,
                            \<lparr>success = True, message = Some ''Login successful!'',
                             r_user_id = None, r_expires_in_minutes = None,
                             r_session_token = Some (token_urlsafe e),
                             r_user_data = Some
                               \<lparr>ud_user_id = u_id u, ud_email = email,
                                ud_full_name = u_full_name u, ud_department = u_department u,
                                ud_company_domain = u_company_domain u,
                                ud_session_expires = session_expires\<rparr>\<rparr>)))))"

definition verify_otp :: "env \<Rightarrow> database \<Rightarrow> string \<Rightarrow> string \<Rightarrow> database \<times> response" where
  "verify_otp e s email otp_code =
     (case verify_otp_body e s email otp_code of
        Inl ex \<Rightarrow> (s, failure ''Login failed. Please try again.'')
      | Inr res \<Rightarrow> res)"

subsection \<open>validate_session\<close>

text \<open>
  \<open>SELECT ... FROM user_sessions s JOIN users u ON s.user_id = u.id WHERE s.session_token
  = ? AND s.is_active = 1\<close>, first row: the first active session with the token whose user
  exists, with that user.
\<close>

definition select_session :: "database \<Rightarrow> string \<Rightarrow> (session_row \<times> user_row) option" where
  "select_session s tok =
     (case List.find (\<lambda>x. s_session_token x = tok \<and> s_is_active x
                          \<and> s_user_id x \<in> set (map u_id (users s))) (user_sessions s) of
        None \<Rightarrow> None
      | Some x \<Rightarrow>
          (case List.find (\<lambda>u. u_id u = s_user_id x) (users s) of
             None \<Rightarrow> None
           | Some u \<Rightarrow> Some (x, u)))"

definition validate_session_body :: "env \<Rightarrow> database \<Rightarrow> string \<Rightarrow> exn + database \<times> response" where
  "validate_session_body e s session_token =
     (if db_fault e then Inl OperationalError
      else
        (case select_session s session_token of
           None \<Rightarrow> Inr (s, failure ''Invalid session. Please login again.'')
         | Some (x, u) \<Rightarrow>
             if now e > s_expires_at x
             then Inr (s\<lparr>user_sessions :=
                          map (\<lambda>y. if s_session_token y = session_token
                                    then y\<lparr>s_is_active := False\<rparr> else y) (user_sessions s)\<rparr>,
                       failure ''Session expired. Please login again.'')
             else Inr (s\<lparr>user_sessions :=
                          map (\<lambda>y. if s_session_token y = session_token
                                    then y\<lparr>s_last_activity := current_timestamp e\<rparr> else y)
                            (user_sessions s)\<rparr>,
                       \<lparr>success = True, message = None, r_user_id = None,
                        r_expires_in_minutes = None, r_session_token = None,
                        r_user_data = Some
                          \<lparr>ud_user_id = s_user_id x, ud_email = u_email u,
                           ud_full_name = u_full_name u, ud_department = u_department u,
                           ud_company_domain = u_company_domain u,
                           ud_session_expires = s_expires_at x\<rparr>\<rparr>)))"

definition validate_session :: "env \<Rightarrow> database \<Rightarrow> string \<Rightarrow> database \<times> response" where
  "validate_session e s session_token =
     (case validate_session_body e s session_token of
        Inl ex \<Rightarrow> (s, failure ''Session validation failed. Please login again.'')
      | Inr res \<Rightarrow> res)"

subsection \<open>logout_user\<close>

definition logout_user_body :: "env \<Rightarrow> database \<Rightarrow> string \<Rightarrow> exn + database \<times> response" where
  "logout_user_body e s session_token =
     (if db_fault e then Inl OperationalError
      else
        (let user_record = select_session s session_token;
             s1 = s\<lparr>user_sessions :=
                    map (\<lambda>y. if s_session_token y = session_token
                              then y\<lparr>s_is_active := False\<rparr> else y) (user_sessions s)\<rparr>;
             s2 = (case user_record of
                     None \<Rightarrow> s1
                   | Some (x, u) \<Rightarrow>
                       log_audit e (s_user_id x) ''LOGOUT'' (''User logged out: '' @ u_email u) s1)
         in Inr (s2,
              \<lparr>success = True, message = Some ''Logged out successfully'', r_user_id = None,
               r_expires_in_minutes = None, r_session_token = None, r_user_data = None\<rparr>)))"

definition logout_user :: "env \<Rightarrow> database \<Rightarrow> string \<Rightarrow> database \<times> response" where
  "logout_user e s session_token =
     (case logout_user_body e s session_token of
        Inl ex \<Rightarrow> (s, failure ''Logout failed'')
      | Inr res \<Rightarrow> res)"

subsection \<open>Calls and runs\<close>

text \<open>
  One call of a public operation of \<open>EnterpriseAuth\<close> with its arguments. \<open>call\<close> gives what
  the caller sees: \<open>Inl\<close> when the exception leaves the operation, \<open>Inr\<close> the database
  afterwards and the dictionary returned (\<open>init_database\<close> returns nothing, shown as
  \<open>None\<close>).
\<close>

datatype operation =
    InitDatabase
  | RegisterUser string string string
  | GenerateOtp string
  | VerifyOtp string string
  | ValidateSession string
  | LogoutUser string

fun call :: "env \<Rightarrow> database \<Rightarrow> operation \<Rightarrow> exn + database \<times> response option" where
  "call e s InitDatabase =
     (case init_database e s of Inl ex \<Rightarrow> Inl ex | Inr s' \<Rightarrow> Inr (s', None))"
| "call e s (RegisterUser email full_name department) =
     (case register_user e s email full_name department of (s', r) \<Rightarrow> Inr (s', Some r))"
| "call e s (GenerateOtp email) =
     (case generate_otp e s email of (s', r) \<Rightarrow> Inr (s', Some r))"
| "call e s (VerifyOtp email otp_code) =
     (case verify_otp e s email otp_code of (s', r) \<Rightarrow> Inr (s', Some r))"
| "call e s (ValidateSession session_token) =
     (case validate_session e s session_token of (s', r) \<Rightarrow> Inr (s', Some r))"
| "call e s (LogoutUser session_token) =
     (case logout_user e s session_token of (s', r) \<Rightarrow> Inr (s', Some r))"

text \<open>The database after a call; a call that raises leaves it as it was.\<close>

definition step :: "database \<Rightarrow> env \<times> operation \<Rightarrow> database" where
  "step s c = (case call (fst c) s (snd c) of Inl ex \<Rightarrow> s | Inr (s', r) \<Rightarrow> s')"

definition run :: "database \<Rightarrow> (env \<times> operation) list \<Rightarrow> database" where
  "run s cs = foldl step s cs"

text \<open>The properties of the stored codes that the claims speak of.\<close>

definition unused_for :: "database \<Rightarrow> string \<Rightarrow> otp_row list" where
  "unused_for s em = filter (\<lambda>r. o_email r = em \<and> \<not> o_is_used r) (otp_codes s)"

definition live :: "string \<Rightarrow> otp_row \<Rightarrow> bool" where
  "live em r = (o_email r = em \<and> \<not> o_is_used r)"

definition single_live_otp :: "database \<Rightarrow> bool" where
  "single_live_otp s =
     list_all (\<lambda>em. length (unused_for s em) \<le> 1) (map o_email (otp_codes s))"

text \<open>
  A code is spent when a row with its id is stored and every row with that id is marked
  used.
\<close>

definition spent :: "database \<Rightarrow> nat \<Rightarrow> bool" where
  "spent s rid =
     (rid \<in> set (map o_id (otp_codes s))
      \<and> list_all (\<lambda>r. o_id r = rid \<longrightarrow> o_is_used r) (otp_codes s))"



section \<open>The backend (server.py)\<close>

text \<open>
  The documents of the collections \<open>users\<close>, \<open>otp_codes\<close> and \<open>sessions\<close>, in natural
  order. The store has no transactions: what an endpoint wrote before it raised stays
  written.
\<close>

record server_user =
  su_id :: string
  su_email :: string
  su_full_name :: string
  su_department :: string
  su_company_domain :: string
  su_is_active :: bool
  su_is_admin :: bool
  su_created_at :: time
  su_last_login :: "time option"
  su_login_count :: nat

record server_otp =
  so_id :: string
  so_email :: string
  so_otp_code :: string
  so_created_at :: time
  so_expires_at :: time
  so_is_used :: bool
  so_attempts :: nat

record server_session =
  ss_id :: string
  ss_user_id :: string
  ss_session_token :: string
  ss_created_at :: time
  ss_expires_at :: time
  ss_is_active :: bool
  ss_last_activity :: time

record server_db =
  sv_users :: "server_user list"
  sv_otp_codes :: "server_otp list"
  sv_sessions :: "server_session list"

text \<open>
  What a request gets from outside: \<open>datetime.utcnow()\<close>, the random sources, the value of
  \<open>uuid.uuid4()\<close>, whether the first database call of the endpoint raises, and whether
  writing the mail file fails.
\<close>

record server_env =
  utcnow :: time
  sv_entropy :: nat
  sv_token :: string
  uuid4 :: string
  mongo_fault :: bool
  mail_fault :: bool

record http_exception =
  status_code :: nat
  detail :: string

definition COMPANY_DOMAIN :: string where
  "COMPANY_DOMAIN = ''hssmedicine.com''"

text \<open>\<open>s.endswith(suffix)\<close>.\<close>

definition endswith :: "string \<Rightarrow> string \<Rightarrow> bool" where
  "endswith s suffix =
     (length suffix \<le> length s \<and> drop (length s - length suffix) s = suffix)"

text \<open>\<open>update_one\<close>: the first document that matches is updated.\<close>

fun update_one :: "('a \<Rightarrow> bool) \<Rightarrow> ('a \<Rightarrow> 'a) \<Rightarrow> 'a list \<Rightarrow> 'a list" where
  "update_one p f [] = []"
| "update_one p f (x # xs) = (if p x then f x # xs else x # update_one p f xs)"

text \<open>\<open>update_many\<close>: every document that matches is updated.\<close>

definition update_many :: "('a \<Rightarrow> bool) \<Rightarrow> ('a \<Rightarrow> 'a) \<Rightarrow> 'a list \<Rightarrow> 'a list" where
  "update_many p f xs = map (\<lambda>x. if p x then f x else x) xs"

text \<open>The JSON object an endpoint returns.\<close>

record server_reply =
  sr_success :: bool
  sr_message :: string
  sr_user_id :: "string option"
  sr_expires_in_minutes :: "nat option"
  sr_session_token :: "string option"

definition server_response ::
  "string \<Rightarrow> string option \<Rightarrow> nat option \<Rightarrow> string option \<Rightarrow> server_reply" where
  "server_response msg uid mins tok =
     \<lparr>sr_success = True, sr_message = msg, sr_user_id = uid, sr_expires_in_minutes = mins,
      sr_session_token = tok\<rparr>"

subsection \<open>register_user\<close>

definition server_register_user ::
  "server_env \<Rightarrow> server_db \<Rightarrow> string \<Rightarrow> string \<Rightarrow> string
     \<Rightarrow> server_db \<times> (http_exception + server_reply)" where
  "server_register_user e s email full_name department =
     (if \<not> endswith email (''@'' @ COMPANY_DOMAIN)
      then (s, Inl \<lparr>status_code = 400,
                    detail = ''Access restricted to '' @ COMPANY_DOMAIN @ '' employees only''\<rparr>)
      else if mongo_fault e
      then (s, Inl \<lparr>status_code = 500, detail = ''Registration failed''\<rparr>)
      else if lower email \<in> set (map su_email (sv_users s))
      then (s, Inl \<lparr>status_code = 400, detail = ''User already registered''\<rparr>)
      else if uuid4 e \<in> set (map su_id (sv_users s))
      then (s, Inl \<lparr>status_code = 500, detail = ''Registration failed''\<rparr>)
      else
        (s\<lparr>sv_users := sv_users s @
             [\<lparr>su_id = uuid4 e, su_email = lower email, su_full_name = strip full_name,
               su_department = strip department, su_company_domain = COMPANY_DOMAIN,
               su_is_active = True, su_is_admin = False, su_created_at = utcnow e,
               su_last_login = None, su_login_count = 0\<rparr>]\<rparr>,
         Inr (server_response ''Registration successful! Welcome to HSS Medicine.''
                (Some (uuid4 e)) None None)))"

subsection \<open>generate_otp_endpoint\<close>

definition generate_otp_endpoint ::
  "server_env \<Rightarrow> server_db \<Rightarrow> string \<Rightarrow> server_db \<times> (http_exception + server_reply)" where
  "generate_otp_endpoint e s email =
     (if \<not> endswith email (''@'' @ COMPANY_DOMAIN)
      then (s, Inl \<lparr>status_code = 400,
                    detail = ''Access restricted to '' @ COMPANY_DOMAIN @ '' employees only''\<rparr>)
      else if mongo_fault e
      then (s, Inl \<lparr>status_code = 500, detail = ''Failed to generate OTP''\<rparr>)
      else
        (let otp_code = generate_otp_code (randbelow (sv_entropy e) 900000);
             expires_at = utcnow e + timedelta_minutes OTP_EXPIRY_MINUTES;
             s1 = s\<lparr>sv_otp_codes :=
                    update_many (\<lambda>d. so_email d = lower email \<and> \<not> so_is_used d)
                      (\<lambda>d. d\<lparr>so_is_used := True\<rparr>) (sv_otp_codes s)\<rparr>
         in if uuid4 e \<in> set (map so_id (sv_otp_codes s1))
            then (s1, Inl \<lparr>status_code = 500, detail = ''Failed to generate OTP''\<rparr>)
            else
              (let s2 = s1\<lparr>sv_otp_codes := sv_otp_codes s1 @
                          [\<lparr>so_id = uuid4 e, so_email = lower email, so_otp_code = otp_code,
                            so_created_at = utcnow e, so_expires_at = expires_at,
                            so_is_used = False, so_attempts = 0\<rparr>]\<rparr>
               in if mail_fault e
                  then (s2, Inl \<lparr>status_code = 500, detail = ''Failed to send OTP email''\<rparr>)
                  else (s2, Inr (server_response
                                   (''OTP sent to '' @ email @ ''. Valid for ''
                                    @ dec OTP_EXPIRY_MINUTES @ '' minutes.'')
                                   None (Some OTP_EXPIRY_MINUTES) None)))))"

subsection \<open>verify_otp_endpoint\<close>

text \<open>
  The query asks for an unexpired code: an expired one is not found. A code that is found
  is marked used in both branches of the test of the attempts (written once here), before
  the user is looked up.
\<close>

definition find_otp :: "server_env \<Rightarrow> server_db \<Rightarrow> string \<Rightarrow> string \<Rightarrow> server_otp option" where
  "find_otp e s em code =
     List.find (\<lambda>d. so_email d = em \<and> so_otp_code d = code \<and> \<not> so_is_used d
                  \<and> so_expires_at d > utcnow e) (sv_otp_codes s)"

definition verify_otp_endpoint ::
  "server_env \<Rightarrow> server_db \<Rightarrow> string \<Rightarrow> string \<Rightarrow> server_db \<times> (http_exception + server_reply)" where
  "verify_otp_endpoint e s email otp_code =
     (if mongo_fault e then (s, Inl \<lparr>status_code = 500, detail = ''Login failed''\<rparr>)
      else
        (case find_otp e s (lower email) otp_code of
           None \<Rightarrow>
             (s\<lparr>sv_otp_codes :=
                  update_many (\<lambda>d. so_email d = lower email \<and> \<not> so_is_used d)
                    (\<lambda>d. d\<lparr>so_attempts := so_attempts d + 1\<rparr>) (sv_otp_codes s)\<rparr>,
              Inl \<lparr>status_code = 400, detail = ''Invalid or expired OTP''\<rparr>)
         | Some otp_record \<Rightarrow>
             (let s1 = s\<lparr>sv_otp_codes :=
                         update_one (\<lambda>d. so_id d = so_id otp_record)
                           (\<lambda>d. d\<lparr>so_is_used := True\<rparr>) (sv_otp_codes s)\<rparr>
              in if so_attempts otp_record \<ge> 3
                 then (s1, Inl \<lparr>status_code = 400, detail = ''Too many failed attempts''\<rparr>)
                 else
                   (case List.find (\<lambda>u. su_email u = lower email) (sv_users s1) of
                      None \<Rightarrow>
                        (s1, Inl \<lparr>status_code = 404,
                                  detail = ''User not found. Please register first.''\<rparr>)
                    | Some u \<Rightarrow>
                        if uuid4 e \<in> set (map ss_id (sv_sessions s1))
                        then (s1, Inl \<lparr>status_code = 500, detail = ''Login failed''\<rparr>)
                        else
                          (let session_expires = utcnow e + timedelta_hours SESSION_EXPIRY_HOURS;
                               s2 = s1\<lparr>sv_sessions := sv_sessions s1 @
                                      [\<lparr>ss_id = uuid4 e, ss_user_id = su_id u,
                                        ss_session_token = sv_token e,
                                        ss_created_at = utcnow e,
                                        ss_expires_at = session_expires, ss_is_active = True,
                                        ss_last_activity = utcnow e\<rparr>],
                                     sv_users :=
                                       update_one (\<lambda>x. su_id x = su_id u)
                                         (\<lambda>x. x\<lparr>su_last_login := Some (utcnow e),
                                                su_login_count := su_login_count x + 1\<rparr>)
                                         (sv_users s1)\<rparr>
                           in (s2,
                               Inr (server_response ''Login successful!'' (Some (su_id u))
                                      None (Some (sv_token e)))))))))"

subsection \<open>validate_session and logout\<close>

text \<open>
  The dependency \<open>validate_session\<close>: every failure, the two 401 responses raised inside
  included, is caught by \<open>except Exception\<close> and raised again as the same 401 response. The
  last activity is written before the user is looked up.
\<close>

definition server_validate_session ::
  "server_env \<Rightarrow> server_db \<Rightarrow> string \<Rightarrow> server_db \<times> (http_exception + server_user)" where
  "server_validate_session e s tok =
     (if mongo_fault e
      then (s, Inl \<lparr>status_code = 401, detail = ''Authentication failed''\<rparr>)
      else
        (case List.find (\<lambda>x. ss_session_token x = tok \<and> ss_is_active x
                             \<and> ss_expires_at x > utcnow e) (sv_sessions s) of
           None \<Rightarrow> (s, Inl \<lparr>status_code = 401, detail = ''Authentication failed''\<rparr>)
         | Some session \<Rightarrow>
             (let s1 = s\<lparr>sv_sessions :=
                         update_one (\<lambda>x. ss_session_token x = tok)
                           (\<lambda>x. x\<lparr>ss_last_activity := utcnow e\<rparr>) (sv_sessions s)\<rparr>
              in (case List.find (\<lambda>u. su_id u = ss_user_id session) (sv_users s1) of
                    None \<Rightarrow> (s1, Inl \<lparr>status_code = 401, detail = ''Authentication failed''\<rparr>)
                  | Some u \<Rightarrow> (s1, Inr u)))))"

definition server_logout ::
  "server_env \<Rightarrow> server_db \<Rightarrow> string \<Rightarrow> server_db \<times> (http_exception + server_reply)" where
  "server_logout e s tok =
     (case server_validate_session e s tok of
        (s1, Inl ex) \<Rightarrow> (s1, Inl ex)
      | (s1, Inr u) \<Rightarrow>
          (s1\<lparr>sv_sessions :=
                update_many (\<lambda>x. ss_user_id x = su_id u) (\<lambda>x. x\<lparr>ss_is_active := False\<rparr>)
                  (sv_sessions s1)\<rparr>,
           Inr (server_response ''Logged out successfully'' None None None)))"

subsection \<open>Requests and runs\<close>

datatype server_request =
    PostRegister string string string
  | PostGenerateOtp string
  | PostVerifyOtp string string
  | PostLogout string

fun server_step :: "server_db \<Rightarrow> server_env \<times> server_request \<Rightarrow> server_db" where
  "server_step s (e, PostRegister email full_name department) =
     fst (server_register_user e s email full_name department)"
| "server_step s (e, PostGenerateOtp email) = fst (generate_otp_endpoint e s email)"
| "server_step s (e, PostVerifyOtp email otp_code) = fst (verify_otp_endpoint e s email otp_code)"
| "server_step s (e, PostLogout tok) = fst (server_logout e s tok)"

definition server_run :: "server_db \<Rightarrow> (server_env \<times> server_request) list \<Rightarrow> server_db" where
  "server_run s cs = foldl server_step s cs"




text \<open>The unused codes of an email in the backend, and the store with at most one each.\<close>

definition server_live :: "string \<Rightarrow> server_otp \<Rightarrow> bool" where
  "server_live em d = (so_email d = em \<and> \<not> so_is_used d)"

definition server_single_live :: "server_db \<Rightarrow> bool" where
  "server_single_live s =
     list_all (\<lambda>em. length (filter (server_live em) (sv_otp_codes s)) \<le> 1)
       (map so_email (sv_otp_codes s))"

section \<open>Merging audio clips (merge_audio.py)\<close>

text \<open>
  A WAV file as the \<open>wave\<close> module shows it: the three parameters, the number of frames
  that the header declares (\<open>getnframes()\<close>), and the frames that the file holds, in order.
  A file whose data was cut short declares more frames than it holds.
\<close>

record wav =
  nchannels :: nat
  sampwidth :: nat
  framerate :: nat
  nframes :: nat
  frames :: "nat list"

text \<open>\<open>readframes(n)\<close> returns at most \<open>n\<close> frames, and no more than the file holds.\<close>

definition readframes :: "wav \<Rightarrow> nat \<Rightarrow> nat list" where
  "readframes w n = take n (frames w)"

text \<open>A file is a WAV file or something that \<open>wave.open(path, 'rb')\<close> refuses.\<close>

datatype stored_file = Wav wav | NotWav

text \<open>
  The file system. \<open>realpath\<close> gives the file that a path names: two paths name the same
  file exactly when it maps them to the same name (\<open>final_audio.wav\<close> and
  \<open>./final_audio.wav\<close> do). \<open>content\<close> gives what is stored under that name, \<open>None\<close> when no
  file exists. \<open>unflushed\<close> is what a reader finds in the output file while the writer,
  still open, has been handed the given frames: it depends on how much of them the
  buffer of the writer has passed on to the file.
\<close>

record filesystem =
  realpath :: "string \<Rightarrow> string"
  content :: "string \<Rightarrow> stored_file option"
  unflushed :: "nat list \<Rightarrow> wav option"

definition output_path :: string where
  "output_path = ''final_audio.wav''"

text \<open>\<open>wave.open(path, 'rb')\<close>: \<open>None\<close> when it raises (no file, or not a WAV file).\<close>

definition wave_open :: "filesystem \<Rightarrow> string \<Rightarrow> wav option" where
  "wave_open fs path =
     (case content fs (realpath fs path) of
        None \<Rightarrow> None
      | Some NotWav \<Rightarrow> None
      | Some (Wav w) \<Rightarrow> Some w)"

text \<open>
  Opening an input inside the loop, when the output file has been opened for writing and
  \<open>written\<close> has been handed to the writer. Opening for writing truncates the output file,
  and the header is written with the first frames: a path that names the output file
  cannot be read as long as nothing was written.
\<close>

definition open_input :: "filesystem \<Rightarrow> nat list \<Rightarrow> string \<Rightarrow> wav option" where
  "open_input fs written path =
     (if realpath fs path = realpath fs output_path
      then (if written = [] then None else unflushed fs written)
      else wave_open fs path)"

text \<open>The compatibility test of the loop.\<close>

definition same_params :: "wav \<Rightarrow> wav \<Rightarrow> bool" where
  "same_params input_file first_file =
     (framerate input_file = framerate first_file
      \<and> nchannels input_file = nchannels first_file
      \<and> sampwidth input_file = sampwidth first_file)"

text \<open>
  \<open>setnchannels\<close>, \<open>setsampwidth\<close> and \<open>setframerate\<close> of the writer raise on a channel count
  below 1, a sample width outside 1..4 and a frame rate that is not positive.
\<close>

definition writer_accepts :: "wav \<Rightarrow> bool" where
  "writer_accepts w =
     (1 \<le> nchannels w \<and> 1 \<le> sampwidth w \<and> sampwidth w \<le> 4 \<and> 0 < framerate w)"

text \<open>
  The loop over the inputs, with the frames written so far and \<open>total_frames\<close>: an input
  that cannot be opened and an input with other parameters are skipped. The frames
  written are those that \<open>readframes\<close> returns; \<open>total_frames\<close> grows by the number that the
  header of the input declares.
\<close>

fun merge_loop :: "filesystem \<Rightarrow> wav \<Rightarrow> string list \<Rightarrow> nat list \<times> nat \<Rightarrow> nat list \<times> nat" where
  "merge_loop fs first_file [] acc = acc"
| "merge_loop fs first_file (audio_file # rest) (written, total_frames) =
     (case open_input fs written audio_file of
        None \<Rightarrow> merge_loop fs first_file rest (written, total_frames)
      | Some input_file \<Rightarrow>
          if \<not> same_params input_file first_file
          then merge_loop fs first_file rest (written, total_frames)
          else merge_loop fs first_file rest
                 (written @ readframes input_file (nframes input_file),
                  total_frames + nframes input_file))"

text \<open>
  \<open>merge_audio_clips\<close> returns the file system afterwards and the path returned. The first
  file is opened before the output is; the output file is then truncated, whatever path
  names it, and is a WAV file again when the writer is closed, with a header that
  declares the frames written. When the writer refuses the parameters, the output file
  stays empty. Every exception outside the loop ends in \<open>return None\<close>.
\<close>

definition merge_audio_clips :: "filesystem \<Rightarrow> string list \<Rightarrow> filesystem \<times> string option" where
  "merge_audio_clips fs audio_files =
     (case audio_files of
        [] \<Rightarrow> (fs, None)
      | first_path # _ \<Rightarrow>
          (case wave_open fs first_path of
             None \<Rightarrow> (fs, None)
           | Some first_file \<Rightarrow>
               (let fs1 = fs\<lparr>content := (content fs)(realpath fs output_path \<mapsto> NotWav)\<rparr>
                in if \<not> writer_accepts first_file then (fs1, None)
                   else
                     (case merge_loop fs first_file audio_files ([], 0) of
                        (written, total_frames) \<Rightarrow>
                          (let fs2 = fs\<lparr>content := (content fs)(realpath fs output_path \<mapsto>
                                 Wav \<lparr>nchannels = nchannels first_file,
                                      sampwidth = sampwidth first_file,
                                      framerate = framerate first_file,
                                      nframes = length written, frames = written\<rparr>)\<rparr>
                           in if total_frames = 0 then (fs2, None)
                              else (fs2, Some output_path))))))"

text \<open>
  The inputs that the specification lets through: the files that can be read and whose
  three parameters are those of the first file, in list order.
\<close>

definition matching_inputs :: "filesystem \<Rightarrow> wav \<Rightarrow> string list \<Rightarrow> wav list" where
  "matching_inputs fs first_file audio_files =
     filter (\<lambda>w. same_params w first_file) (List.map_filter (wave_open fs) audio_files)"

section \<open>The pipeline (main.py)\<close>

datatype stage = Record | Merge | Transcribe | Summarize | Deliver

datatype py_exception = PyException

text \<open>
  What the run gets from outside: the clips recorded, the files on disk, the speech API,
  and the functions of modules that are not part of the sources
  (\<open>generate_dream_team_email\<close>, \<open>save_dream_team_email\<close>). \<open>Inl\<close> is a call that raises.
\<close>

record pipeline_env =
  record_multiple_clips :: "py_exception + string list"
  files :: filesystem
  api_key :: bool
  whisper :: "string \<Rightarrow> py_exception + string"
  transcript_saved :: bool
  generate_dream_team_email :: "string \<Rightarrow> py_exception + string option"
  save_dream_team_email :: "string \<Rightarrow> py_exception + string"
  send_email_outlook_draft :: "string \<Rightarrow> py_exception + bool"

text \<open>
  \<open>transcribe_audio\<close>: with \<open>None\<close> for a path, \<open>os.path.exists\<close> raises a \<open>TypeError\<close>, which
  the function catches like every other exception, and returns \<open>None\<close>. A path exists
  when the file system stores a file under the name it resolves to.
\<close>

definition transcribe_audio :: "pipeline_env \<Rightarrow> filesystem \<Rightarrow> string option \<Rightarrow> string option" where
  "transcribe_audio e fs audio_file_path =
     (case audio_file_path of
        None \<Rightarrow> None
      | Some p \<Rightarrow>
          if content fs (realpath fs p) = None then None
          else if \<not> api_key e then None
          else (case whisper e p of
                  Inl ex \<Rightarrow> None
                | Inr transcript \<Rightarrow> if transcript = [] then None else Some transcript))"

text \<open>The stages that a run of \<open>main\<close> calls, in the order of the calls.\<close>

definition main :: "pipeline_env \<Rightarrow> stage list" where
  "main e =
     Record #
     (case record_multiple_clips e of
        Inl ex \<Rightarrow> []
      | Inr audio_files \<Rightarrow>
          if audio_files = [] then []
          else
            Merge #
            (case merge_audio_clips (files e) audio_files of
               (fs, final_audio_path) \<Rightarrow>
                 Transcribe #
                 (case transcribe_audio e fs final_audio_path of
                    None \<Rightarrow> []
                  | Some transcript \<Rightarrow>
                      if \<not> transcript_saved e then []
                      else
                        Summarize #
                        (case generate_dream_team_email e transcript of
                           Inl ex \<Rightarrow> []
                         | Inr None \<Rightarrow> []
                         | Inr (Some dream_team_email) \<Rightarrow>
                             if dream_team_email = [] then []
                             else
                               (case save_dream_team_email e dream_team_email of
                                  Inl ex \<Rightarrow> []
                                | Inr email_filename \<Rightarrow> [Deliver])))))"

text \<open>
  A run in which the clip that was recorded cannot be read when merging starts, so that
  merging fails.
\<close>

definition demo_pipeline :: pipeline_env where
  "demo_pipeline =
     \<lparr>record_multiple_clips = Inr [''audio_clips/clip_1.wav''],
      files = \<lparr>realpath = (\<lambda>p. p), content = (\<lambda>l. None), unflushed = (\<lambda>ws. None)\<rparr>,
      api_key = True,
      whisper = (\<lambda>p. Inr ''hello''),
      transcript_saved = True,
      generate_dream_team_email = (\<lambda>t. Inr (Some ''Dear team'')),
      save_dream_team_email = (\<lambda>t. Inr ''email.txt''),
      send_email_outlook_draft = (\<lambda>t. Inr True)\<rparr>"










subsection \<open>A concrete run\<close>

text \<open>
  The inputs of the examples below: an environment without faults, and the store after
  \<open>init_database\<close>, the registration of one user and the issue of a code to that user.
\<close>

definition demo_env :: "time \<Rightarrow> nat \<Rightarrow> string \<Rightarrow> env" where
  "demo_env t r tok =
     \<lparr>now = t, current_timestamp = t, entropy = r, token_urlsafe = tok, db_fault = False,
      company_db_fault = False\<rparr>"

definition demo_email :: string where
  "demo_email = ''ann@hhamedicine.com''"

definition demo_registered :: database where
  "demo_registered =
     run empty_database
       [(demo_env 0 0 [], InitDatabase),
        (demo_env 1 0 [], RegisterUser demo_email ''Ann'' ''IT'')]"

definition demo_issued :: database where
  "demo_issued = step demo_registered (demo_env 2 0 [], GenerateOtp demo_email)"

definition demo_stranger :: string where
  "demo_stranger = ''bob@hhamedicine.com''"

text \<open>A code issued to an address that no user has registered.\<close>

definition demo_stranger_issued :: database where
  "demo_stranger_issued = step demo_registered (demo_env 2 0 [], GenerateOtp demo_stranger)"

text \<open>The store after the user logged in with the code, and after a second code was issued.\<close>

definition demo_logged_in :: database where
  "demo_logged_in = step demo_issued (demo_env 3 0 ''token-1'', VerifyOtp demo_email ''100000'')"


text \<open>The row of the code issued in \<open>demo_issued\<close>.\<close>

definition demo_row :: otp_row where
  "demo_row =
     \<lparr>o_id = 1, o_email = demo_email, o_otp_code = ''100000'', o_created_at = 2,
      o_expires_at = 600000002, o_is_used = False, o_attempts = 0\<rparr>"

text \<open>The store after three calls of \<open>verify_otp\<close> with a wrong code.\<close>

definition demo_locked :: database where
  "demo_locked =
     run demo_issued
       [(demo_env 3 0 [], VerifyOtp demo_email ''000000''),
        (demo_env 4 0 [], VerifyOtp demo_email ''000000''),
        (demo_env 5 0 [], VerifyOtp demo_email ''000000'')]"

text \<open>The backend after one registration and the issue of a code.\<close>

definition server_empty :: server_db where
  "server_empty = \<lparr>sv_users = [], sv_otp_codes = [], sv_sessions = []\<rparr>"

definition server_demo_env :: "time \<Rightarrow> nat \<Rightarrow> string \<Rightarrow> string \<Rightarrow> server_env" where
  "server_demo_env t r tok uid =
     \<lparr>utcnow = t, sv_entropy = r, sv_token = tok, uuid4 = uid, mongo_fault = False,
      mail_fault = False\<rparr>"

definition server_demo_email :: string where
  "server_demo_email = ''eve@hssmedicine.com''"

definition server_demo_issued :: server_db where
  "server_demo_issued =
     server_run server_empty
       [(server_demo_env 1 0 [] ''user-1'', PostRegister server_demo_email ''Eve'' ''IT''),
        (server_demo_env 2 0 [] ''otp-1'', PostGenerateOtp server_demo_email)]"

definition server_demo_doc :: server_otp where
  "server_demo_doc =
     \<lparr>so_id = ''otp-1'', so_email = server_demo_email, so_otp_code = ''100000'',
      so_created_at = 2, so_expires_at = 600000002, so_is_used = False, so_attempts = 0\<rparr>"


text \<open>The session and the user in \<open>demo_logged_in\<close>.\<close>

definition demo_session :: session_row where
  "demo_session =
     \<lparr>s_id = 1, s_user_id = 1, s_session_token = ''token-1'', s_created_at = 3,
      s_expires_at = 28800000003, s_is_active = True, s_last_activity = 3,
      s_ip_address = None, s_user_agent = None\<rparr>"

definition demo_user :: user_row where
  "demo_user =
     \<lparr>u_id = 1, u_email = demo_email, u_full_name = ''Ann'', u_department = ''IT'',
      u_company_domain = ''hhamedicine.com'', u_is_active = True, u_is_admin = False,
      u_created_at = 1, u_last_login = Some 3, u_login_count = 1\<rparr>"

text \<open>An environment in which the database fails, and the store right after \<open>init_database\<close>.\<close>

definition demo_faulty_env :: env where
  "demo_faulty_env =
     \<lparr>now = 0, current_timestamp = 0, entropy = 0, token_urlsafe = [], db_fault = True,
      company_db_fault = False\<rparr>"

definition demo_initialised :: database where
  "demo_initialised = run empty_database [(demo_env 0 0 [], InitDatabase)]"

text \<open>An address with two \<open>@\<close> signs, at a host that is not a company domain.\<close>

definition demo_bypass_email :: string where
  "demo_bypass_email = ''mallory@hssmedicine.com@evil.example''"

text \<open>The message of \<open>validate_email_domain\<close> for a domain that is not allowed.\<close>

definition access_restricted :: string where
  "access_restricted =
     ''Access restricted to hhamedicine.com and hssmedicine.com employees only''"

text \<open>
  The backend after the user logged in with the code, with the user and the session stored
  then; after three requests with a wrong code instead; and after a code was issued to an
  address that no user has registered.
\<close>

definition server_demo_logged_in :: server_db where
  "server_demo_logged_in =
     server_step server_demo_issued
       (server_demo_env 3 0 ''token-1'' ''session-1'', PostVerifyOtp server_demo_email ''100000'')"

definition server_demo_user :: server_user where
  "server_demo_user =
     \<lparr>su_id = ''user-1'', su_email = server_demo_email, su_full_name = ''Eve'',
      su_department = ''IT'', su_company_domain = ''hssmedicine.com'', su_is_active = True,
      su_is_admin = False, su_created_at = 1, su_last_login = Some 3, su_login_count = 1\<rparr>"

definition server_demo_session :: server_session where
  "server_demo_session =
     \<lparr>ss_id = ''session-1'', ss_user_id = ''user-1'', ss_session_token = ''token-1'',
      ss_created_at = 3, ss_expires_at = 28800000003, ss_is_active = True,
      ss_last_activity = 3\<rparr>"

definition server_demo_locked :: server_db where
  "server_demo_locked =
     server_run server_demo_issued
       [(server_demo_env 3 0 [] ''x-1'', PostVerifyOtp server_demo_email ''000000''),
        (server_demo_env 4 0 [] ''x-2'', PostVerifyOtp server_demo_email ''000000''),
        (server_demo_env 5 0 [] ''x-3'', PostVerifyOtp server_demo_email ''000000'')]"

definition server_demo_stranger :: string where
  "server_demo_stranger = ''bob@hssmedicine.com''"

definition server_demo_stranger_issued :: server_db where
  "server_demo_stranger_issued =
     server_step server_empty
       (server_demo_env 2 0 [] ''otp-1'', PostGenerateOtp server_demo_stranger)"

section \<open>Properties of the one-time code format\<close>

lemma digit_val_digit_char: "d < 10 \<Longrightarrow> digit_val (digit_char d) = d"
proof -
  assume "d < 10"
  then have "d \<in> {0,1,2,3,4,5,6,7,8,9}" by auto
  then show ?thesis by (auto simp: digit_val_def digit_char_def)
qed

lemma digit_char_is_digit: "d < 10 \<Longrightarrow> is_digit (digit_char d)"
proof -
  assume "d < 10"
  then have "d \<in> {0,1,2,3,4,5,6,7,8,9}" by auto
  then show ?thesis by (auto simp: is_digit_def digit_char_def)
qed

lemma digit_char_zero: "d < 10 \<Longrightarrow> digit_char d = CHR ''0'' \<longleftrightarrow> d = 0"
proof -
  assume "d < 10"
  then have "d \<in> {0,1,2,3,4,5,6,7,8,9}" by auto
  then show ?thesis by (auto simp: digit_char_def)
qed

lemma dec_nonempty: "dec n \<noteq> []"
  by (subst dec.simps) simp

lemma dec_digits: "\<forall>c \<in> set (dec n). is_digit c"
proof (induction n rule: dec.induct)
  case (1 n)
  show ?case
  proof (cases "n < 10")
    case True
    then show ?thesis by (subst dec.simps) (simp add: digit_char_is_digit)
  next
    case False
    then show ?thesis using 1 by (subst dec.simps) (simp add: digit_char_is_digit)
  qed
qed

lemma dec_hd: "0 < n \<Longrightarrow> hd (dec n) \<noteq> CHR ''0''"
proof (induction n rule: dec.induct)
  case (1 n)
  show ?case
  proof (cases "n < 10")
    case True
    then show ?thesis using 1(2) by (subst dec.simps) (simp add: digit_char_zero)
  next
    case False
    then have "0 < n div 10" by simp
    with 1(1) False have "hd (dec (n div 10)) \<noteq> CHR ''0''" by simp
    then show ?thesis using False by (subst dec.simps) (simp add: dec_nonempty)
  qed
qed

lemma int_of_dec_dec: "int_of_dec (dec n) = n"
proof (induction n rule: dec.induct)
  case (1 n)
  show ?case
  proof (cases "n < 10")
    case True
    then show ?thesis by (subst dec.simps) (simp add: int_of_dec_def digit_val_digit_char)
  next
    case False
    with 1 have "int_of_dec (dec (n div 10)) = n div 10" by simp
    then show ?thesis using False
      by (subst dec.simps) (simp add: int_of_dec_def digit_val_digit_char)
  qed
qed

lemma dec_length_lower: "10 ^ k \<le> n \<Longrightarrow> k < length (dec n)"
proof (induction k arbitrary: n)
  case 0
  then show ?case using dec_nonempty [of n] by (cases "dec n") auto
next
  case (Suc k)
  then have "10 ^ k \<le> n div 10" by simp
  then have "k < length (dec (n div 10))" by (rule Suc.IH)
  moreover have ten: "(10::nat) \<le> 10 * 10 ^ k" by simp
  have "10 * 10 ^ k \<le> n" using Suc.prems by simp
  with ten have "\<not> n < 10" by linarith
  ultimately show ?case by (subst dec.simps) simp
qed

lemma dec_length_upper: "n < 10 ^ Suc k \<Longrightarrow> length (dec n) \<le> Suc k"
proof (induction k arbitrary: n)
  case 0
  then show ?case by (subst dec.simps) simp
next
  case (Suc k)
  show ?case
  proof (cases "n < 10")
    case True
    then show ?thesis by (subst dec.simps) simp
  next
    case False
    have "n div 10 < 10 ^ Suc k" using Suc.prems by (simp add: less_mult_imp_div_less)
    then have "length (dec (n div 10)) \<le> Suc k" by (rule Suc.IH)
    then show ?thesis using False by (subst dec.simps) simp
  qed
qed

lemma dec_six: "100000 \<le> n \<Longrightarrow> n \<le> 999999 \<Longrightarrow> length (dec n) = 6"
proof -
  assume a: "100000 \<le> n" and b: "n \<le> 999999"
  have "(10::nat) ^ 5 \<le> n" using a by simp
  then have "5 < length (dec n)" by (rule dec_length_lower)
  moreover have "n < 10 ^ Suc 5" using b by simp
  then have "length (dec n) \<le> Suc 5" by (rule dec_length_upper)
  ultimately show ?thesis by simp
qed

text \<open>
  C10: every generated code is a string of exactly six decimal digits, does not start with
  \<open>0\<close>, and denotes the integer \<open>randbelow(900000) + 100000\<close>, which lies between 100000 and
  999999 inclusive.
\<close>

theorem otp_code_six_digits:
  assumes "r < 900000"
  shows "length (generate_otp_code r) = 6
       \<and> (\<forall>c \<in> set (generate_otp_code r). is_digit c)
       \<and> hd (generate_otp_code r) \<noteq> CHR ''0''
       \<and> int_of_dec (generate_otp_code r) = r + 100000
       \<and> 100000 \<le> int_of_dec (generate_otp_code r)
       \<and> int_of_dec (generate_otp_code r) \<le> 999999"
proof -
  have n: "nat (int r + 100000) = r + 100000" by simp
  have len: "length (dec (r + 100000)) = 6" using assms by (intro dec_six) simp_all
  have eq: "generate_otp_code r = dec (r + 100000)"
    by (simp add: generate_otp_code_def format_06d_def zfill_def len nat_add_distrib)
  show ?thesis unfolding eq using assms
    by (simp add: len dec_digits dec_hd int_of_dec_dec)
qed

theorem otp_code_six_digits_witness:
  "(0::nat) < 900000 \<and> generate_otp_code 0 = ''100000'' \<and> length (generate_otp_code 0) = 6
   \<and> int_of_dec (generate_otp_code 0) = 100000"
  using otp_code_six_digits [of 0]
  by (simp add: generate_otp_code_def format_06d_def zfill_def dec.simps digit_char_def)

section \<open>Properties of the stored codes\<close>


lemma otp_codes_log_audit [simp]: "otp_codes (log_audit e u a d s) = otp_codes s"
  by (simp add: log_audit_def Let_def)

lemma users_log_audit [simp]: "users (log_audit e u a d s) = users s"
  by (simp add: log_audit_def Let_def)

lemma user_sessions_log_audit [simp]: "user_sessions (log_audit e u a d s) = user_sessions s"
  by (simp add: log_audit_def Let_def)

lemma otp_codes_insert_company [simp]: "otp_codes (insert_company ts c s) = otp_codes s"
  by (cases c) (simp add: insert_company_def Let_def)

lemma otp_codes_init: "init_database e s = Inr s' \<Longrightarrow> otp_codes s' = otp_codes s"
  by (auto simp: init_database_def setup_default_companies_def split: if_splits)

lemma otp_codes_register: "otp_codes (fst (register_user e s em fn d)) = otp_codes s"
  by (auto simp: register_user_def register_user_body_def Let_def
      split: sum.splits prod.splits bool.splits option.splits if_splits)

lemma otp_codes_validate: "otp_codes (fst (validate_session e s t)) = otp_codes s"
  by (auto simp: validate_session_def validate_session_body_def
      split: sum.splits prod.splits option.splits if_splits)

lemma otp_codes_logout: "otp_codes (fst (logout_user e s t)) = otp_codes s"
  by (auto simp: logout_user_def logout_user_body_def Let_def
      split: sum.splits prod.splits option.splits if_splits)

lemma otp_codes_verify:
  "otp_codes (fst (verify_otp e s em c)) = otp_codes s
   \<or> otp_codes (fst (verify_otp e s em c)) = increment_attempts (lower em) (otp_codes s)
   \<or> (\<exists>i. otp_codes (fst (verify_otp e s em c)) = mark_used i (otp_codes s))"
  by (auto simp: verify_otp_def verify_otp_body_def Let_def
      split: sum.splits prod.splits option.splits if_splits)

lemma otp_codes_generate:
  "otp_codes (fst (generate_otp e s em)) = otp_codes s
   \<or> (\<exists>n. otp_codes (fst (generate_otp e s em)) = deactivate_otps (lower em) (otp_codes s) @ [n]
          \<and> \<not> o_is_used n \<and> o_email n = lower em
          \<and> o_id n = next_rowid (seq_otp_codes s) (map o_id (deactivate_otps (lower em) (otp_codes s))))"
  by (auto simp: generate_otp_def generate_otp_body_def Let_def
      split: sum.splits prod.splits bool.splits option.splits if_splits)


lemma step_register: "step s (e, RegisterUser em fn d) = fst (register_user e s em fn d)"
  by (simp add: step_def split: prod.splits)

lemma step_generate: "step s (e, GenerateOtp em) = fst (generate_otp e s em)"
  by (simp add: step_def split: prod.splits)

lemma step_verify: "step s (e, VerifyOtp em code) = fst (verify_otp e s em code)"
  by (simp add: step_def split: prod.splits)

lemma step_validate: "step s (e, ValidateSession t) = fst (validate_session e s t)"
  by (simp add: step_def split: prod.splits)

lemma step_logout: "step s (e, LogoutUser t) = fst (logout_user e s t)"
  by (simp add: step_def split: prod.splits)

lemma step_init: "otp_codes (step s (e, InitDatabase)) = otp_codes s"
  by (simp add: step_def init_database_def setup_default_companies_def split: sum.splits)

lemma step_otp_cases:
  "otp_codes (step s c) = otp_codes s
   \<or> (\<exists>em. otp_codes (step s c) = increment_attempts em (otp_codes s))
   \<or> (\<exists>i. otp_codes (step s c) = mark_used i (otp_codes s))
   \<or> (\<exists>em n. otp_codes (step s c) = deactivate_otps em (otp_codes s) @ [n]
          \<and> \<not> o_is_used n \<and> o_email n = em
          \<and> o_id n = next_rowid (seq_otp_codes s) (map o_id (deactivate_otps em (otp_codes s))))"
proof (cases c)
  case (Pair e op)
  show ?thesis
  proof (cases op)
    case InitDatabase
    then show ?thesis unfolding Pair by (simp only: step_init simp_thms)
  next
    case (RegisterUser em fn d)
    then show ?thesis unfolding Pair by (simp only: step_register otp_codes_register simp_thms)
  next
    case (GenerateOtp em)
    show ?thesis unfolding Pair GenerateOtp step_generate
      using otp_codes_generate [of e s em] by blast
  next
    case (VerifyOtp em code)
    show ?thesis unfolding Pair VerifyOtp step_verify
      using otp_codes_verify [of e s em code] by blast
  next
    case (ValidateSession t)
    then show ?thesis unfolding Pair by (simp only: step_validate otp_codes_validate simp_thms)
  next
    case (LogoutUser t)
    then show ?thesis unfolding Pair by (simp only: step_logout otp_codes_logout simp_thms)
  qed
qed

lemma fold_max_ge: "seq \<le> fold max ids (seq::nat)"
proof (induction ids arbitrary: seq)
  case Nil
  then show ?case by simp
next
  case (Cons a ids)
  have "seq \<le> max a seq" by simp
  also have "\<dots> \<le> fold max ids (max a seq)" by (rule Cons.IH)
  finally show ?case by simp
qed

lemma fold_max_mem: "i \<in> set ids \<Longrightarrow> i \<le> fold max ids (seq::nat)"
proof (induction ids arbitrary: seq)
  case Nil
  then show ?case by simp
next
  case (Cons a ids)
  show ?case
  proof (cases "i = a")
    case True
    have "a \<le> max a seq" by simp
    also have "\<dots> \<le> fold max ids (max a seq)" by (rule fold_max_ge)
    finally show ?thesis using True by simp
  next
    case False
    with Cons show ?thesis by simp
  qed
qed

lemma next_rowid_fresh: "i \<in> set ids \<Longrightarrow> i < next_rowid seq ids"
  using fold_max_mem [of i ids seq] by (simp add: next_rowid_def)












lemma unused_for_absent: "em \<notin> set (map o_email (otp_codes s)) \<Longrightarrow> unused_for s em = []"
proof -
  assume a: "em \<notin> set (map o_email (otp_codes s))"
  have "\<forall>r \<in> set (otp_codes s). \<not> (o_email r = em \<and> \<not> o_is_used r)"
    using a by auto
  then show ?thesis unfolding unused_for_def filter_empty_conv by blast
qed

lemma single_live_otp_iff: "single_live_otp s \<longleftrightarrow> (\<forall>em. length (unused_for s em) \<le> 1)"
proof
  assume a: "single_live_otp s"
  show "\<forall>em. length (unused_for s em) \<le> 1"
  proof
    fix em
    show "length (unused_for s em) \<le> 1"
    proof (cases "em \<in> set (map o_email (otp_codes s))")
      case True
      with a show ?thesis unfolding single_live_otp_def list_all_iff by blast
    next
      case False
      then show ?thesis by (simp add: unused_for_absent)
    qed
  qed
next
  assume "\<forall>em. length (unused_for s em) \<le> 1"
  then show "single_live_otp s" unfolding single_live_otp_def list_all_iff by blast
qed


lemma unused_for_live: "unused_for s em = filter (live em) (otp_codes s)"
  by (simp add: unused_for_def live_def [abs_def])







lemma ids_increment [simp]: "map o_id (increment_attempts em rows) = map o_id rows"
  by (simp add: increment_attempts_def)

lemma ids_mark_used [simp]: "map o_id (mark_used i rows) = map o_id rows"
  by (simp add: mark_used_def)

lemma ids_deactivate [simp]: "map o_id (deactivate_otps em rows) = map o_id rows"
  by (simp add: deactivate_otps_def)



section \<open>The selected code, and spent codes\<close>



lemma singleton_filter:
  assumes "length (filter P xs) \<le> 1" and "x \<in> set xs" and "P x"
  shows "filter P xs = [x]"
proof -
  have "x \<in> set (filter P xs)" using assms(2,3) by simp
  moreover obtain ys where "filter P xs = [] \<or> filter P xs = [ys]" 
    using assms(1) by (cases "filter P xs") (auto simp: length_Suc_conv)
  ultimately show ?thesis by (cases "filter P xs") (use assms(1) in auto)
qed

lemma select_otp_single_live:
  assumes "single_live_otp s" and "r \<in> set (otp_codes s)" and "o_email r = em"
    and "o_otp_code r = code" and "\<not> o_is_used r"
  shows "select_otp s em code = Some r"
proof -
  have "length (filter (live em) (otp_codes s)) \<le> 1"
    using assms(1) by (simp add: single_live_otp_iff unused_for_live)
  then have one: "filter (live em) (otp_codes s) = [r]"
    using assms(2,3,5) by (intro singleton_filter) (simp_all add: live_def)
  have "filter (\<lambda>r. o_email r = em \<and> o_otp_code r = code \<and> \<not> o_is_used r) (otp_codes s)
        = filter (\<lambda>r. o_otp_code r = code) (filter (live em) (otp_codes s))"
    by (simp add: live_def [abs_def] conj_commute conj_left_commute)
  also have "\<dots> = [r]" unfolding one using assms(4) by simp
  finally show ?thesis by (simp add: select_otp_def)
qed

lemma spent_iff:
  "spent s i \<longleftrightarrow> i \<in> o_id ` set (otp_codes s) \<and> (\<forall>r \<in> set (otp_codes s). o_id r = i \<longrightarrow> o_is_used r)"
  by (simp add: spent_def list_all_iff)

lemma spent_map:
  assumes "i \<in> o_id ` set rows \<and> (\<forall>r \<in> set rows. o_id r = i \<longrightarrow> o_is_used r)"
    and "\<And>r. o_id (f r) = o_id r" and "\<And>r. o_is_used r \<Longrightarrow> o_is_used (f r)"
  shows "i \<in> o_id ` set (map f rows) \<and> (\<forall>r \<in> set (map f rows). o_id r = i \<longrightarrow> o_is_used r)"
proof
  from assms(1) obtain r where "r \<in> set rows" "o_id r = i" by auto
  then have "f r \<in> set (map f rows)" "o_id (f r) = i" using assms(2) by simp_all
  then show "i \<in> o_id ` set (map f rows)" by force
  show "\<forall>r \<in> set (map f rows). o_id r = i \<longrightarrow> o_is_used r"
    using assms by auto
qed

lemma spent_step: "spent s i \<Longrightarrow> spent (step s c) i"
  unfolding spent_iff using step_otp_cases [of s c]
proof (elim disjE exE conjE)
  assume "otp_codes (step s c) = otp_codes s"
    and "i \<in> o_id ` set (otp_codes s)" "\<forall>r \<in> set (otp_codes s). o_id r = i \<longrightarrow> o_is_used r"
  then show "i \<in> o_id ` set (otp_codes (step s c))
      \<and> (\<forall>r \<in> set (otp_codes (step s c)). o_id r = i \<longrightarrow> o_is_used r)" by simp
next
  fix em
  assume a: "otp_codes (step s c) = increment_attempts em (otp_codes s)"
    and b: "i \<in> o_id ` set (otp_codes s)" "\<forall>r \<in> set (otp_codes s). o_id r = i \<longrightarrow> o_is_used r"
  show "i \<in> o_id ` set (otp_codes (step s c))
      \<and> (\<forall>r \<in> set (otp_codes (step s c)). o_id r = i \<longrightarrow> o_is_used r)"
    unfolding a increment_attempts_def using b by (intro spent_map) simp_all
next
  fix j
  assume a: "otp_codes (step s c) = mark_used j (otp_codes s)"
    and b: "i \<in> o_id ` set (otp_codes s)" "\<forall>r \<in> set (otp_codes s). o_id r = i \<longrightarrow> o_is_used r"
  show "i \<in> o_id ` set (otp_codes (step s c))
      \<and> (\<forall>r \<in> set (otp_codes (step s c)). o_id r = i \<longrightarrow> o_is_used r)"
    unfolding a mark_used_def using b by (intro spent_map) simp_all
next
  fix em n
  assume a: "otp_codes (step s c) = deactivate_otps em (otp_codes s) @ [n]"
    and n: "o_id n = next_rowid (seq_otp_codes s) (map o_id (deactivate_otps em (otp_codes s)))"
    and b: "i \<in> o_id ` set (otp_codes s)" "\<forall>r \<in> set (otp_codes s). o_id r = i \<longrightarrow> o_is_used r"
  have m: "i \<in> o_id ` set (deactivate_otps em (otp_codes s))
      \<and> (\<forall>r \<in> set (deactivate_otps em (otp_codes s)). o_id r = i \<longrightarrow> o_is_used r)"
    unfolding deactivate_otps_def using b by (intro spent_map) simp_all
  have "i \<in> set (map o_id (deactivate_otps em (otp_codes s)))" using b(1) by simp
  then have "i < o_id n" unfolding n by (rule next_rowid_fresh)
  then have "o_id n \<noteq> i" by simp
  with m show "i \<in> o_id ` set (otp_codes (step s c))
      \<and> (\<forall>r \<in> set (otp_codes (step s c)). o_id r = i \<longrightarrow> o_is_used r)"
    unfolding a by auto
qed

lemma spent_run: "spent s i \<Longrightarrow> spent (run s cs) i"
proof (induction cs arbitrary: s)
  case Nil
  then show ?case by (simp add: run_def)
next
  case (Cons c cs)
  from Cons.prems have "spent (step s c) i" by (rule spent_step)
  then have "spent (run (step s c) cs) i" by (rule Cons.IH)
  then show ?case by (simp add: run_def)
qed

lemma spent_mark_used:
  assumes "r \<in> set rows"
  shows "o_id r \<in> o_id ` set (mark_used (o_id r) rows)
       \<and> (\<forall>x \<in> set (mark_used (o_id r) rows). o_id x = o_id r \<longrightarrow> o_is_used x)"
proof
  have "set (map o_id (mark_used (o_id r) rows)) = set (map o_id rows)" by simp
  then have "o_id ` set (mark_used (o_id r) rows) = o_id ` set rows" by (simp only: set_map)
  then show "o_id r \<in> o_id ` set (mark_used (o_id r) rows)" using assms by blast
  show "\<forall>x \<in> set (mark_used (o_id r) rows). o_id x = o_id r \<longrightarrow> o_is_used x"
    by (auto simp: mark_used_def)
qed



section \<open>The concrete run, evaluated\<close>

lemmas str_simps = lower_def lower_char_def ALLOWED_DOMAINS_def

lemmas eval_simps = run_def step_def init_database_def setup_default_companies_def
    insert_company_def next_rowid_def empty_database_def demo_env_def register_user_def register_user_body_def
    get_company_info_def log_audit_def Let_def strip_def is_space_def
    generate_otp_def generate_otp_body_def send_otp_email_def deactivate_otps_def
    generate_otp_code_def randbelow_def format_06d_def zfill_def dec.simps digit_char_def
    OTP_EXPIRY_MINUTES_def timedelta_minutes_def

lemma demo_valid: "validate_email_domain demo_email = (True, ''hhamedicine.com'')"
  by (simp add: validate_email_domain_def demo_email_def str_simps)

lemma lower_demo: "lower demo_email = demo_email"
  by (simp add: demo_email_def str_simps)

lemma split_demo: "split_chr (CHR ''@'') demo_email = [''ann'', ''hhamedicine.com'']"
  by (simp add: demo_email_def)

lemma users_demo_registered:
  "users demo_registered =
     [\<lparr>u_id = 1, u_email = demo_email, u_full_name = ''Ann'', u_department = ''IT'',
       u_company_domain = ''hhamedicine.com'', u_is_active = True, u_is_admin = False,
       u_created_at = 1, u_last_login = None, u_login_count = 0\<rparr>]"
  by (simp add: demo_registered_def eval_simps demo_valid lower_demo)

lemma otp_codes_demo_issued: "otp_codes demo_issued = [demo_row]"
  by (simp add: demo_issued_def demo_registered_def demo_row_def eval_simps demo_valid
      lower_demo split_demo)

lemma users_demo_issued: "users demo_issued = users demo_registered"
  by (simp add: demo_issued_def step_generate generate_otp_def generate_otp_body_def
      demo_valid Let_def demo_env_def)

lemma user_sessions_demo_issued: "user_sessions demo_issued = []"
  by (simp add: demo_issued_def demo_registered_def eval_simps demo_valid lower_demo split_demo)

lemma single_live_demo_issued: "single_live_otp demo_issued"
  by (simp add: single_live_otp_def unused_for_def otp_codes_demo_issued demo_row_def)

lemma select_demo_issued: "select_otp demo_issued demo_email ''100000'' = Some demo_row"
  by (simp add: select_otp_def otp_codes_demo_issued demo_row_def)

lemma select_demo_issued_wrong: "select_otp demo_issued demo_email ''000000'' = None"
  by (simp add: select_otp_def otp_codes_demo_issued demo_row_def)

section \<open>The branches of verify_otp\<close>

lemma verify_otp_expired_eq:
  assumes "select_otp s (lower email) code = Some r" and "now e > o_expires_at r"
    and "\<not> db_fault e"
  shows "verify_otp e s email code =
           (s\<lparr>otp_codes := mark_used (o_id r) (otp_codes s)\<rparr>,
            failure ''OTP has expired. Please request a new one.'')"
  using assms by (simp add: verify_otp_def verify_otp_body_def)

lemma verify_otp_attempts_eq:
  assumes "select_otp s (lower email) code = Some r" and "\<not> now e > o_expires_at r"
    and "o_attempts r \<ge> 3" and "\<not> db_fault e"
  shows "verify_otp e s email code =
           (s\<lparr>otp_codes := mark_used (o_id r) (otp_codes s)\<rparr>,
            failure ''Too many failed attempts. Please request a new OTP.'')"
  using assms by (simp add: verify_otp_def verify_otp_body_def)

lemma verify_otp_invalid_eq:
  assumes "select_otp s (lower email) code = None" and "\<not> db_fault e"
  shows "verify_otp e s email code =
           (s\<lparr>otp_codes := increment_attempts (lower email) (otp_codes s)\<rparr>,
            failure ''Invalid OTP code. Please check and try again.'')"
  using assms by (simp add: verify_otp_def verify_otp_body_def)

lemma marked_row_mem: "r \<in> set rows \<Longrightarrow> r\<lparr>o_is_used := True\<rparr> \<in> set (mark_used (o_id r) rows)"
  by (force simp: mark_used_def)


section \<open>More of the concrete run\<close>

lemma otp_codes_wrong_code:
  assumes "otp_codes s = [demo_row\<lparr>o_attempts := n\<rparr>]" and "\<not> db_fault e"
  shows "otp_codes (step s (e, VerifyOtp demo_email ''000000''))
           = [demo_row\<lparr>o_attempts := Suc n\<rparr>]"
proof -
  have "select_otp s (lower demo_email) ''000000'' = None"
    by (simp add: select_otp_def assms(1) demo_row_def)
  then have "verify_otp e s demo_email ''000000'' =
           (s\<lparr>otp_codes := increment_attempts (lower demo_email) (otp_codes s)\<rparr>,
            failure ''Invalid OTP code. Please check and try again.'')"
    using assms(2) by (rule verify_otp_invalid_eq)
  then show ?thesis
    by (simp add: step_verify assms(1) increment_attempts_def lower_demo demo_row_def)
qed

lemma otp_codes_demo_locked: "otp_codes demo_locked = [demo_row\<lparr>o_attempts := 3\<rparr>]"
proof -
  let ?w = "VerifyOtp demo_email ''000000''"
  have f: "\<not> db_fault (demo_env t 0 [])" for t by (simp add: demo_env_def)
  have "otp_codes demo_issued = [demo_row\<lparr>o_attempts := 0\<rparr>]"
    by (simp add: otp_codes_demo_issued demo_row_def)
  then have "otp_codes (step demo_issued (demo_env 3 0 [], ?w)) = [demo_row\<lparr>o_attempts := Suc 0\<rparr>]"
    using f by (rule otp_codes_wrong_code)
  then have "otp_codes (step (step demo_issued (demo_env 3 0 [], ?w)) (demo_env 4 0 [], ?w))
               = [demo_row\<lparr>o_attempts := Suc (Suc 0)\<rparr>]"
    using f by (rule otp_codes_wrong_code)
  then have "otp_codes (step (step (step demo_issued (demo_env 3 0 [], ?w)) (demo_env 4 0 [], ?w))
                 (demo_env 5 0 [], ?w))
               = [demo_row\<lparr>o_attempts := Suc (Suc (Suc 0))\<rparr>]"
    using f by (rule otp_codes_wrong_code)
  then show ?thesis by (simp add: demo_locked_def run_def numeral_3_eq_3)
qed

lemma single_live_demo_locked: "single_live_otp demo_locked"
  by (simp add: single_live_otp_def unused_for_def otp_codes_demo_locked demo_row_def)

lemma otp_codes_demo_stranger_issued:
  "otp_codes demo_stranger_issued = [demo_row\<lparr>o_email := demo_stranger\<rparr>]"
  by (simp add: demo_stranger_issued_def demo_registered_def demo_row_def eval_simps
      validate_email_domain_def demo_stranger_def demo_email_def str_simps demo_valid)

lemma users_generate: "users (fst (generate_otp e s em)) = users s"
  by (simp add: generate_otp_def generate_otp_body_def Let_def
      split: prod.splits bool.splits sum.splits)

lemma verify_otp_no_user_eq:
  assumes "select_otp s (lower email) code = Some r" and "\<not> now e > o_expires_at r"
    and "\<not> o_attempts r \<ge> 3" and "List.find (\<lambda>u. u_email u = lower email) (users s) = None"
    and "\<not> db_fault e"
  shows "verify_otp e s email code = (s, failure ''User not found. Please register first.'')"
  using assms by (simp add: verify_otp_def verify_otp_body_def)

lemma lower_demo_stranger: "lower demo_stranger = demo_stranger"
  by (simp add: demo_stranger_def str_simps)

lemma users_demo_stranger_issued_find:
  "List.find (\<lambda>u. u_email u = demo_stranger) (users demo_stranger_issued) = None"
  by (simp add: demo_stranger_issued_def step_generate users_generate users_demo_registered
      demo_stranger_def demo_email_def)


section \<open>The codes of the backend\<close>




























section \<open>At most one live code in the backend\<close>

lemma server_single_live_iff:
  "server_single_live s \<longleftrightarrow> (\<forall>em. length (filter (server_live em) (sv_otp_codes s)) \<le> 1)"
proof
  assume a: "server_single_live s"
  show "\<forall>em. length (filter (server_live em) (sv_otp_codes s)) \<le> 1"
  proof
    fix em
    show "length (filter (server_live em) (sv_otp_codes s)) \<le> 1"
    proof (cases "em \<in> set (map so_email (sv_otp_codes s))")
      case True
      with a show ?thesis unfolding server_single_live_def list_all_iff by blast
    next
      case False
      then have "\<forall>d \<in> set (sv_otp_codes s). \<not> server_live em d"
        by (auto simp: server_live_def)
      then have "filter (server_live em) (sv_otp_codes s) = []"
        unfolding filter_empty_conv by blast
      then show ?thesis by simp
    qed
  qed
next
  assume "\<forall>em. length (filter (server_live em) (sv_otp_codes s)) \<le> 1"
  then show "server_single_live s" unfolding server_single_live_def list_all_iff by blast
qed







section \<open>A successful login, evaluated\<close>
















lemma sv_docs_demo_issued: "sv_otp_codes server_demo_issued = [server_demo_doc]"
  by (simp add: server_demo_issued_def server_run_def server_register_user_def
      generate_otp_endpoint_def server_empty_def server_demo_env_def server_demo_email_def
      server_demo_doc_def endswith_def COMPANY_DOMAIN_def update_many_def Let_def str_simps
      generate_otp_code_def randbelow_def format_06d_def zfill_def dec.simps digit_char_def
      OTP_EXPIRY_MINUTES_def timedelta_minutes_def)



lemma lower_server_demo: "lower server_demo_email = server_demo_email"
  by (simp add: server_demo_email_def str_simps)


section \<open>The session selected by validate_session\<close>

lemma find_unique:
  assumes "distinct (map f xs)" and "x \<in> set xs" and "P x" and "\<And>y. P y \<Longrightarrow> f y = f x"
  shows "List.find P xs = Some x"
  using assms(1,2)
proof (induction xs)
  case Nil
  then show ?case by simp
next
  case (Cons a xs)
  show ?case
  proof (cases "a = x")
    case True
    then show ?thesis using assms(3) by simp
  next
    case False
    then have mem: "x \<in> set xs" using Cons.prems(2) by simp
    have "f a \<notin> f ` set xs" using Cons.prems(1) by simp
    then have "f a \<noteq> f x" using mem by (metis imageI)
    then have "\<not> P a" using assms(4) by blast
    moreover have "List.find P xs = Some x" using Cons.IH Cons.prems(1) mem by simp
    ultimately show ?thesis by simp
  qed
qed

lemma find_SomeD: "List.find P xs = Some x \<Longrightarrow> x \<in> set xs \<and> P x"
  unfolding find_Some_iff by auto

lemma select_session_iff:
  assumes "distinct (map s_session_token (user_sessions s))" and "distinct (map u_id (users s))"
  shows "select_session s tok = Some (x, u) \<longleftrightarrow>
           x \<in> set (user_sessions s) \<and> s_session_token x = tok \<and> s_is_active x
           \<and> u \<in> set (users s) \<and> u_id u = s_user_id x"
proof
  assume a: "select_session s tok = Some (x, u)"
  then obtain x' where fx: "List.find (\<lambda>x. s_session_token x = tok \<and> s_is_active x
      \<and> s_user_id x \<in> set (map u_id (users s))) (user_sessions s) = Some x'"
    by (auto simp: select_session_def split: option.splits)
  with a have fu: "List.find (\<lambda>u. u_id u = s_user_id x') (users s) = Some u" and xx: "x' = x"
    by (auto simp: select_session_def split: option.splits)
  from find_SomeD [OF fx] find_SomeD [OF fu] xx
  show "x \<in> set (user_sessions s) \<and> s_session_token x = tok \<and> s_is_active x
           \<and> u \<in> set (users s) \<and> u_id u = s_user_id x" by simp
next
  assume h: "x \<in> set (user_sessions s) \<and> s_session_token x = tok \<and> s_is_active x
           \<and> u \<in> set (users s) \<and> u_id u = s_user_id x"
  then have "s_user_id x \<in> set (map u_id (users s))" by (metis imageI list.set_map)
  with h have "List.find (\<lambda>x. s_session_token x = tok \<and> s_is_active x
      \<and> s_user_id x \<in> set (map u_id (users s))) (user_sessions s) = Some x"
    by (intro find_unique [where f = s_session_token] assms(1)) simp_all
  moreover have "List.find (\<lambda>u. u_id u = s_user_id x) (users s) = Some u"
    using h by (intro find_unique [where f = u_id] assms(2)) simp_all
  ultimately show "select_session s tok = Some (x, u)" by (simp add: select_session_def)
qed

lemma select_session_None_iff:
  assumes "distinct (map s_session_token (user_sessions s))" and "distinct (map u_id (users s))"
  shows "select_session s tok = None \<longleftrightarrow>
     \<not> (\<exists>x u. x \<in> set (user_sessions s) \<and> s_session_token x = tok \<and> s_is_active x
            \<and> u \<in> set (users s) \<and> u_id u = s_user_id x)"
proof -
  have "select_session s tok = None \<longleftrightarrow> \<not> (\<exists>x u. select_session s tok = Some (x, u))"
    by (cases "select_session s tok") auto
  then show ?thesis unfolding select_session_iff [OF assms] .
qed

lemma validate_session_selected:
  assumes "\<not> db_fault e" and "select_session s tok = Some (x, u)"
  shows "validate_session e s tok =
          (if now e > s_expires_at x
           then (s\<lparr>user_sessions :=
                    map (\<lambda>y. if s_session_token y = tok then y\<lparr>s_is_active := False\<rparr> else y)
                      (user_sessions s)\<rparr>,
                 failure ''Session expired. Please login again.'')
           else (s\<lparr>user_sessions :=
                    map (\<lambda>y. if s_session_token y = tok
                              then y\<lparr>s_last_activity := current_timestamp e\<rparr> else y)
                      (user_sessions s)\<rparr>,
                 \<lparr>success = True, message = None, r_user_id = None,
                  r_expires_in_minutes = None, r_session_token = None,
                  r_user_data = Some
                    \<lparr>ud_user_id = s_user_id x, ud_email = u_email u,
                     ud_full_name = u_full_name u, ud_department = u_department u,
                     ud_company_domain = u_company_domain u,
                     ud_session_expires = s_expires_at x\<rparr>\<rparr>))"
  using assms by (simp add: validate_session_def validate_session_body_def)

lemma validate_session_none:
  assumes "\<not> db_fault e" and "select_session s tok = None"
  shows "validate_session e s tok = (s, failure ''Invalid session. Please login again.'')"
  using assms by (simp add: validate_session_def validate_session_body_def)

lemma map_token_unique:
  assumes "distinct (map s_session_token xs)" and "x \<in> set xs"
  shows "map (\<lambda>y. if s_session_token y = s_session_token x then g y else y) xs
           = map (\<lambda>y. if y = x then g y else y) xs"
proof (rule map_cong [OF refl])
  fix y assume y: "y \<in> set xs"
  have "s_session_token y = s_session_token x \<longleftrightarrow> y = x"
    using assms y by (meson distinct_map inj_on_def)
  then show "(if s_session_token y = s_session_token x then g y else y) = (if y = x then g y else y)"
    by simp
qed


lemma verify_otp_success_state:
  assumes "select_otp s (lower email) code = Some r" and "\<not> now e > o_expires_at r"
    and "o_attempts r < 3" and "List.find (\<lambda>u. u_email u = lower email) (users s) = Some u"
    and "token_urlsafe e \<notin> set (map s_session_token (user_sessions s))"
    and "\<not> db_fault e"
  shows "user_sessions (fst (verify_otp e s email code)) = user_sessions s @
           [\<lparr>s_id = next_rowid (seq_user_sessions s) (map s_id (user_sessions s)),
             s_user_id = u_id u, s_session_token = token_urlsafe e,
             s_created_at = current_timestamp e,
             s_expires_at = now e + timedelta_hours SESSION_EXPIRY_HOURS, s_is_active = True,
             s_last_activity = current_timestamp e, s_ip_address = None, s_user_agent = None\<rparr>]
       \<and> users (fst (verify_otp e s email code))
           = map (\<lambda>x. if u_id x = u_id u
                       then x\<lparr>u_last_login := Some (current_timestamp e),
                              u_login_count := u_login_count x + 1\<rparr>
                       else x) (users s)"
  using assms by (simp add: verify_otp_def verify_otp_body_def Let_def)

lemma seq_user_sessions_generate:
  "seq_user_sessions (fst (generate_otp e s em)) = seq_user_sessions s"
  by (simp add: generate_otp_def generate_otp_body_def Let_def
      split: prod.splits bool.splits sum.splits)

lemma seq_user_sessions_demo_issued: "seq_user_sessions demo_issued = 0"
  by (simp add: demo_issued_def step_generate seq_user_sessions_generate demo_registered_def
      eval_simps demo_valid lower_demo)

lemma demo_logged_in_state:
  "user_sessions demo_logged_in = [demo_session] \<and> users demo_logged_in = [demo_user]"
proof -
  have "user_sessions (fst (verify_otp (demo_env 3 0 ''token-1'') demo_issued demo_email ''100000''))
          = user_sessions demo_issued @
           [\<lparr>s_id = next_rowid (seq_user_sessions demo_issued) (map s_id (user_sessions demo_issued)),
             s_user_id = u_id (hd (users demo_registered)),
             s_session_token = token_urlsafe (demo_env 3 0 ''token-1''),
             s_created_at = current_timestamp (demo_env 3 0 ''token-1''),
             s_expires_at = now (demo_env 3 0 ''token-1'') + timedelta_hours SESSION_EXPIRY_HOURS,
             s_is_active = True,
             s_last_activity = current_timestamp (demo_env 3 0 ''token-1''),
             s_ip_address = None, s_user_agent = None\<rparr>]
       \<and> users (fst (verify_otp (demo_env 3 0 ''token-1'') demo_issued demo_email ''100000''))
           = map (\<lambda>x. if u_id x = u_id (hd (users demo_registered))
                       then x\<lparr>u_last_login := Some (current_timestamp (demo_env 3 0 ''token-1'')),
                              u_login_count := u_login_count x + 1\<rparr>
                       else x) (users demo_issued)"
    by (rule verify_otp_success_state [where r = demo_row])
      (simp_all add: lower_demo select_demo_issued users_demo_issued users_demo_registered
        user_sessions_demo_issued demo_row_def demo_env_def)
  then show ?thesis
    by (simp add: demo_logged_in_def step_verify user_sessions_demo_issued
        seq_user_sessions_demo_issued users_demo_issued users_demo_registered next_rowid_def
        demo_session_def demo_user_def demo_env_def timedelta_hours_def SESSION_EXPIRY_HOURS_def)
qed


section \<open>The branches of the backend's verify_otp_endpoint and validate_session\<close>

lemma find_filter_hd:
  "List.find P xs = (case filter P xs of [] \<Rightarrow> None | x # ys \<Rightarrow> Some x)"
  by (induction xs) simp_all

lemma server_live_one:
  assumes "server_single_live s" and "d \<in> set (sv_otp_codes s)" and "so_email d = em"
    and "\<not> so_is_used d"
  shows "filter (server_live em) (sv_otp_codes s) = [d]"
proof -
  have "length (filter (server_live em) (sv_otp_codes s)) \<le> 1"
    using assms(1) unfolding server_single_live_iff by blast
  then show ?thesis using assms(2-4) by (intro singleton_filter) (simp_all add: server_live_def)
qed

lemma find_otp_filter:
  "find_otp e s em code =
     (case filter (\<lambda>d. so_otp_code d = code \<and> so_expires_at d > utcnow e)
             (filter (server_live em) (sv_otp_codes s)) of
        [] \<Rightarrow> None
      | x # ys \<Rightarrow> Some x)"
proof -
  have "filter (\<lambda>d. so_email d = em \<and> so_otp_code d = code \<and> \<not> so_is_used d
                  \<and> so_expires_at d > utcnow e) (sv_otp_codes s)
      = filter (\<lambda>d. so_otp_code d = code \<and> so_expires_at d > utcnow e)
          (filter (server_live em) (sv_otp_codes s))"
    by (simp add: server_live_def [abs_def] conj_commute conj_left_commute)
  then show ?thesis unfolding find_otp_def find_filter_hd by simp
qed

lemma find_otp_expired:
  assumes "server_single_live s" and "d \<in> set (sv_otp_codes s)" and "so_email d = em"
    and "\<not> so_is_used d" and "so_expires_at d \<le> utcnow e"
  shows "find_otp e s em code = None"
  unfolding find_otp_filter server_live_one [OF assms(1-4)] using assms(5) by simp

lemma find_otp_single_live:
  assumes "server_single_live s" and "d \<in> set (sv_otp_codes s)" and "so_email d = em"
    and "\<not> so_is_used d" and "so_otp_code d = code" and "so_expires_at d > utcnow e"
  shows "find_otp e s em code = Some d"
  unfolding find_otp_filter server_live_one [OF assms(1-4)] using assms(5,6) by simp

lemma server_verify_not_found_eq:
  assumes "\<not> mongo_fault e" and "find_otp e s (lower email) code = None"
  shows "verify_otp_endpoint e s email code =
           (s\<lparr>sv_otp_codes :=
                update_many (\<lambda>d. so_email d = lower email \<and> \<not> so_is_used d)
                  (\<lambda>d. d\<lparr>so_attempts := so_attempts d + 1\<rparr>) (sv_otp_codes s)\<rparr>,
            Inl \<lparr>status_code = 400, detail = ''Invalid or expired OTP''\<rparr>)"
  using assms by (simp add: verify_otp_endpoint_def)

lemma server_verify_limit_eq:
  assumes "\<not> mongo_fault e" and "find_otp e s (lower email) code = Some d"
    and "so_attempts d \<ge> 3"
  shows "verify_otp_endpoint e s email code =
           (s\<lparr>sv_otp_codes :=
                update_one (\<lambda>x. so_id x = so_id d) (\<lambda>x. x\<lparr>so_is_used := True\<rparr>)
                  (sv_otp_codes s)\<rparr>,
            Inl \<lparr>status_code = 400, detail = ''Too many failed attempts''\<rparr>)"
  using assms by (simp add: verify_otp_endpoint_def Let_def)

lemma update_one_marks:
  assumes "distinct (map so_id docs)" and "d \<in> set docs"
  shows "d\<lparr>so_is_used := True\<rparr>
           \<in> set (update_one (\<lambda>x. so_id x = so_id d) (\<lambda>x. x\<lparr>so_is_used := True\<rparr>) docs)"
  using assms
proof (induction docs)
  case Nil
  then show ?case by simp
next
  case (Cons a docs)
  show ?case
  proof (cases "a = d")
    case True
    then show ?thesis by simp
  next
    case False
    then have mem: "d \<in> set docs" using Cons.prems(2) by simp
    have "so_id a \<notin> so_id ` set docs" using Cons.prems(1) by simp
    then have "so_id a \<noteq> so_id d" using mem by (metis imageI)
    moreover have "d\<lparr>so_is_used := True\<rparr>
           \<in> set (update_one (\<lambda>x. so_id x = so_id d) (\<lambda>x. x\<lparr>so_is_used := True\<rparr>) docs)"
      using Cons.IH Cons.prems(1) mem by simp
    ultimately show ?thesis by simp
  qed
qed

lemma update_one_attempts:
  "map so_attempts (update_one p (\<lambda>x. x\<lparr>so_is_used := True\<rparr>) xs) = map so_attempts xs"
  by (induction xs) simp_all

lemma update_many_used:
  assumes "\<And>x. so_is_used (f x) = so_is_used x"
  shows "map so_is_used (update_many p f xs) = map so_is_used xs"
  by (induction xs) (simp_all add: update_many_def assms)

lemma server_verify_attempts_unchanged:
  assumes "mongo_fault e \<or> find_otp e s (lower email) code \<noteq> None"
  shows "map so_attempts (sv_otp_codes (fst (verify_otp_endpoint e s email code)))
           = map so_attempts (sv_otp_codes s)"
proof (cases "mongo_fault e")
  case True
  then show ?thesis by (simp add: verify_otp_endpoint_def)
next
  case False
  then obtain d where "find_otp e s (lower email) code = Some d" using assms by blast
  then show ?thesis using False
    by (simp add: verify_otp_endpoint_def Let_def update_one_attempts split: option.splits)
qed

lemma mark_used_attempts: "map o_attempts (mark_used i rows) = map o_attempts rows"
  by (induction rows) (simp_all add: mark_used_def)

lemma verify_otp_attempts_unchanged:
  assumes "db_fault e \<or> select_otp s (lower email) code \<noteq> None"
  shows "map o_attempts (otp_codes (fst (verify_otp e s email code)))
           = map o_attempts (otp_codes s)"
proof (cases "db_fault e")
  case True
  then show ?thesis by (simp add: verify_otp_def verify_otp_body_def)
next
  case False
  then obtain r where "select_otp s (lower email) code = Some r" using assms by blast
  then show ?thesis using False
    by (simp add: verify_otp_def verify_otp_body_def Let_def mark_used_attempts
        split: option.splits)
qed

lemma distinct_map_eq:
  assumes "distinct (map f xs)" and "x \<in> set xs" and "y \<in> set xs" and "f x = f y"
  shows "x = y"
  using assms by (induction xs) (auto simp: image_iff)

lemma update_one_unique_map:
  assumes "distinct (map f xs)" and "y \<in> set xs"
  shows "update_one (\<lambda>x. f x = f y) g xs = map (\<lambda>z. if z = y then g z else z) xs"
  using assms
proof (induction xs)
  case Nil
  then show ?case by simp
next
  case (Cons a xs)
  show ?case
  proof (cases "a = y")
    case True
    have "f y \<notin> f ` set xs" using Cons.prems(1) True by simp
    then have "\<forall>z \<in> set xs. z \<noteq> y" by (metis imageI)
    then have "map (\<lambda>z. if z = y then g z else z) xs = xs" by (simp add: map_idI)
    then show ?thesis using True by simp
  next
    case False
    then have mem: "y \<in> set xs" using Cons.prems(2) by simp
    have "f a \<notin> f ` set xs" using Cons.prems(1) by simp
    then have "f a \<noteq> f y" using mem by (metis imageI)
    then show ?thesis using False Cons.IH Cons.prems(1) mem by simp
  qed
qed

lemma update_one_active:
  "map ss_is_active (update_one p (\<lambda>x. x\<lparr>ss_last_activity := t\<rparr>) xs) = map ss_is_active xs"
  by (induction xs) simp_all

lemma server_validate_active:
  "map ss_is_active (sv_sessions (fst (server_validate_session e s tok)))
     = map ss_is_active (sv_sessions s)"
  by (simp add: server_validate_session_def Let_def update_one_active split: option.splits)

lemma server_validate_not_found_eq:
  assumes "List.find (\<lambda>x. ss_session_token x = tok \<and> ss_is_active x
                          \<and> ss_expires_at x > utcnow e) (sv_sessions s) = None"
  shows "server_validate_session e s tok =
           (s, Inl \<lparr>status_code = 401, detail = ''Authentication failed''\<rparr>)"
  using assms by (simp add: server_validate_session_def)

lemma server_validate_found_eq:
  assumes "\<not> mongo_fault e"
    and "List.find (\<lambda>x. ss_session_token x = tok \<and> ss_is_active x
                          \<and> ss_expires_at x > utcnow e) (sv_sessions s) = Some y"
    and "List.find (\<lambda>u. su_id u = ss_user_id y) (sv_users s) = Some v"
  shows "server_validate_session e s tok =
           (s\<lparr>sv_sessions :=
                update_one (\<lambda>x. ss_session_token x = tok)
                  (\<lambda>x. x\<lparr>ss_last_activity := utcnow e\<rparr>) (sv_sessions s)\<rparr>,
            Inr v)"
  using assms by (simp add: server_validate_session_def Let_def)

lemma server_validate_success_iff:
  assumes "\<not> mongo_fault e" and "distinct (map ss_session_token (sv_sessions s))"
  shows "(\<exists>v. snd (server_validate_session e s tok) = Inr v) \<longleftrightarrow>
           (\<exists>y v. y \<in> set (sv_sessions s) \<and> ss_session_token y = tok \<and> ss_is_active y
                \<and> v \<in> set (sv_users s) \<and> su_id v = ss_user_id y
                \<and> utcnow e < ss_expires_at y)"
proof
  assume "\<exists>v. snd (server_validate_session e s tok) = Inr v"
  then obtain v where v: "snd (server_validate_session e s tok) = Inr v" by blast
  have "List.find (\<lambda>x. ss_session_token x = tok \<and> ss_is_active x
                          \<and> ss_expires_at x > utcnow e) (sv_sessions s) \<noteq> None"
  proof
    assume "List.find (\<lambda>x. ss_session_token x = tok \<and> ss_is_active x
                          \<and> ss_expires_at x > utcnow e) (sv_sessions s) = None"
    from server_validate_not_found_eq [OF this] v show False by simp
  qed
  then obtain y where y: "List.find (\<lambda>x. ss_session_token x = tok \<and> ss_is_active x
                          \<and> ss_expires_at x > utcnow e) (sv_sessions s) = Some y"
    by blast
  have u: "List.find (\<lambda>u. su_id u = ss_user_id y) (sv_users s) = Some v"
    using v y assms(1)
    by (cases "List.find (\<lambda>u. su_id u = ss_user_id y) (sv_users s)")
      (simp_all add: server_validate_session_def Let_def)
  from find_SomeD [OF y] find_SomeD [OF u]
  show "\<exists>y v. y \<in> set (sv_sessions s) \<and> ss_session_token y = tok \<and> ss_is_active y
                \<and> v \<in> set (sv_users s) \<and> su_id v = ss_user_id y
                \<and> utcnow e < ss_expires_at y"
    by blast
next
  assume "\<exists>y v. y \<in> set (sv_sessions s) \<and> ss_session_token y = tok \<and> ss_is_active y
                \<and> v \<in> set (sv_users s) \<and> su_id v = ss_user_id y
                \<and> utcnow e < ss_expires_at y"
  then obtain y v where h: "y \<in> set (sv_sessions s)" "ss_session_token y = tok" "ss_is_active y"
    "v \<in> set (sv_users s)" "su_id v = ss_user_id y" "utcnow e < ss_expires_at y"
    by blast
  have y: "List.find (\<lambda>x. ss_session_token x = tok \<and> ss_is_active x
                          \<and> ss_expires_at x > utcnow e) (sv_sessions s) = Some y"
    using assms(2) h(1) by (rule find_unique) (simp_all add: h)
  have "List.find (\<lambda>u. su_id u = ss_user_id y) (sv_users s) \<noteq> None"
    unfolding find_None_iff using h(4,5) by blast
  then obtain v' where "List.find (\<lambda>u. su_id u = ss_user_id y) (sv_users s) = Some v'"
    by blast
  then have "snd (server_validate_session e s tok) = Inr v'"
    using server_validate_found_eq [OF assms(1) y] by simp
  then show "\<exists>v. snd (server_validate_session e s tok) = Inr v" by blast
qed

lemma server_validate_expired_eq:
  assumes "distinct (map ss_session_token (sv_sessions s))"
    and "y \<in> set (sv_sessions s)" and "ss_session_token y = tok"
    and "\<not> utcnow e < ss_expires_at y"
  shows "server_validate_session e s tok =
           (s, Inl \<lparr>status_code = 401, detail = ''Authentication failed''\<rparr>)"
proof (rule server_validate_not_found_eq)
  have "\<not> (ss_session_token x = tok \<and> ss_is_active x \<and> ss_expires_at x > utcnow e)"
    if "x \<in> set (sv_sessions s)" for x
  proof
    assume a: "ss_session_token x = tok \<and> ss_is_active x \<and> ss_expires_at x > utcnow e"
    then have "x = y" using distinct_map_eq [OF assms(1) that assms(2)] assms(3) by simp
    then show False using a assms(4) by simp
  qed
  then show "List.find (\<lambda>x. ss_session_token x = tok \<and> ss_is_active x
                          \<and> ss_expires_at x > utcnow e) (sv_sessions s) = None"
    unfolding find_None_iff by blast
qed

lemma server_validate_success_eq:
  assumes "\<not> mongo_fault e" and "distinct (map ss_session_token (sv_sessions s))"
    and "distinct (map su_id (sv_users s))"
    and "y \<in> set (sv_sessions s)" and "ss_session_token y = tok" and "ss_is_active y"
    and "v \<in> set (sv_users s)" and "su_id v = ss_user_id y" and "utcnow e < ss_expires_at y"
  shows "server_validate_session e s tok =
           (s\<lparr>sv_sessions :=
                map (\<lambda>z. if z = y then z\<lparr>ss_last_activity := utcnow e\<rparr> else z) (sv_sessions s)\<rparr>,
            Inr v)"
proof -
  have y: "List.find (\<lambda>x. ss_session_token x = tok \<and> ss_is_active x
                          \<and> ss_expires_at x > utcnow e) (sv_sessions s) = Some y"
    using assms(2,4) by (rule find_unique) (simp_all add: assms)
  have v: "List.find (\<lambda>u. su_id u = ss_user_id y) (sv_users s) = Some v"
    using assms(3,7) by (rule find_unique) (simp_all add: assms)
  have "update_one (\<lambda>x. ss_session_token x = ss_session_token y)
          (\<lambda>x. x\<lparr>ss_last_activity := utcnow e\<rparr>) (sv_sessions s)
        = map (\<lambda>z. if z = y then z\<lparr>ss_last_activity := utcnow e\<rparr> else z) (sv_sessions s)"
    using assms(2,4) by (rule update_one_unique_map)
  then show ?thesis using server_validate_found_eq [OF assms(1) y v] assms(5) by simp
qed

section \<open>The backend runs of the examples\<close>

lemma sv_state_demo_issued:
  "server_demo_issued =
     \<lparr>sv_users = [server_demo_user\<lparr>su_last_login := None, su_login_count := 0\<rparr>],
      sv_otp_codes = [server_demo_doc], sv_sessions = []\<rparr>"
  by (simp add: server_demo_issued_def server_run_def server_register_user_def
      generate_otp_endpoint_def server_empty_def server_demo_env_def server_demo_email_def
      server_demo_doc_def server_demo_user_def endswith_def COMPANY_DOMAIN_def update_many_def
      Let_def str_simps strip_def is_space_def
      generate_otp_code_def randbelow_def format_06d_def zfill_def dec.simps digit_char_def
      OTP_EXPIRY_MINUTES_def timedelta_minutes_def)

lemma sv_state_demo_logged_in:
  "server_demo_logged_in =
     \<lparr>sv_users = [server_demo_user],
      sv_otp_codes = [server_demo_doc\<lparr>so_is_used := True\<rparr>],
      sv_sessions = [server_demo_session]\<rparr>"
  unfolding server_demo_logged_in_def sv_state_demo_issued
  by (simp add: verify_otp_endpoint_def find_otp_def lower_server_demo Let_def
      server_demo_env_def server_demo_doc_def server_demo_user_def server_demo_session_def
      SESSION_EXPIRY_HOURS_def timedelta_hours_def)

lemma sv_wrong_code:
  assumes "sv_otp_codes s = [server_demo_doc\<lparr>so_attempts := n\<rparr>]"
  shows "sv_otp_codes (fst (verify_otp_endpoint (server_demo_env t 0 [] u) s
                              server_demo_email ''000000''))
           = [server_demo_doc\<lparr>so_attempts := Suc n\<rparr>]"
  using assms
  by (simp add: verify_otp_endpoint_def find_otp_def lower_server_demo server_demo_env_def
      update_many_def server_demo_doc_def)

lemma sv_docs_demo_locked:
  "sv_otp_codes server_demo_locked = [server_demo_doc\<lparr>so_attempts := 3\<rparr>]"
proof -
  have 0: "sv_otp_codes server_demo_issued = [server_demo_doc\<lparr>so_attempts := 0\<rparr>]"
    by (simp add: sv_docs_demo_issued server_demo_doc_def)
  note 1 = sv_wrong_code [OF 0, of 3 "''x-1''"]
  note 2 = sv_wrong_code [OF 1, of 4 "''x-2''"]
  note 3 = sv_wrong_code [OF 2, of 5 "''x-3''"]
  show ?thesis using 3 by (simp add: server_demo_locked_def server_run_def numeral_3_eq_3)
qed

lemma lower_server_stranger: "lower server_demo_stranger = server_demo_stranger"
  by (simp add: server_demo_stranger_def str_simps)

lemma sv_state_demo_stranger_issued:
  "server_demo_stranger_issued =
     \<lparr>sv_users = [],
      sv_otp_codes = [server_demo_doc\<lparr>so_email := server_demo_stranger\<rparr>], sv_sessions = []\<rparr>"
  by (simp add: server_demo_stranger_issued_def generate_otp_endpoint_def server_empty_def
      server_demo_env_def server_demo_stranger_def server_demo_doc_def endswith_def
      COMPANY_DOMAIN_def update_many_def Let_def str_simps
      generate_otp_code_def randbelow_def format_06d_def zfill_def dec.simps digit_char_def
      OTP_EXPIRY_MINUTES_def timedelta_minutes_def)

section \<open>A failing database\<close>

lemma call_returns:
  assumes "op \<noteq> InitDatabase"
  shows "\<exists>s' r. call e s op = Inr (s', Some r)"
  using assms by (cases op) (auto split: prod.splits)

lemma register_user_fault:
  "db_fault e \<Longrightarrow> fst (register_user e s em fn d) = s
     \<and> \<not> success (snd (register_user e s em fn d))
     \<and> message (snd (register_user e s em fn d)) \<noteq> None"
  by (simp add: register_user_def register_user_body_def failure_def
      split: prod.splits bool.splits option.splits)

lemma generate_otp_fault:
  "db_fault e \<Longrightarrow> fst (generate_otp e s em) = s
     \<and> \<not> success (snd (generate_otp e s em))
     \<and> message (snd (generate_otp e s em)) \<noteq> None"
  by (simp add: generate_otp_def generate_otp_body_def failure_def Let_def
      split: prod.splits bool.splits)

lemma verify_otp_fault:
  "db_fault e \<Longrightarrow> verify_otp e s em c = (s, failure ''Login failed. Please try again.'')"
  by (simp add: verify_otp_def verify_otp_body_def)

lemma validate_session_fault:
  "db_fault e \<Longrightarrow> validate_session e s t
     = (s, failure ''Session validation failed. Please login again.'')"
  by (simp add: validate_session_def validate_session_body_def)

lemma logout_user_fault:
  "db_fault e \<Longrightarrow> logout_user e s t = (s, failure ''Logout failed'')"
  by (simp add: logout_user_def logout_user_body_def)


section \<open>The domain check\<close>

lemma split_chr_nonempty: "split_chr sep s \<noteq> []"
  by (induction s) (simp_all add: Let_def)

lemma split_chr_no_sep: "sep \<notin> set s \<Longrightarrow> split_chr sep s = [s]"
  by (induction s) (auto simp: Let_def)

lemma split_chr_first:
  "sep \<notin> set xs \<Longrightarrow> split_chr sep (xs @ sep # ys) = xs # split_chr sep ys"
  by (induction xs) (auto simp: Let_def)

text \<open>
  For an address with exactly one \<open>@\<close>, the check is the one the specification describes:
  when the text after the \<open>@\<close>, lower-cased, is not an allowed domain, both operations
  refuse with the access restriction and leave the store as it was.
\<close>

lemma domain_restricted_single_at:
  assumes "CHR ''@'' \<notin> set local_part" and "CHR ''@'' \<notin> set domain"
    and "lower domain \<notin> set ALLOWED_DOMAINS"
  shows "register_user e s (local_part @ CHR ''@'' # domain) full_name department
           = (s, failure access_restricted)
       \<and> generate_otp e s (local_part @ CHR ''@'' # domain) = (s, failure access_restricted)"
proof -
  have "split_chr (CHR ''@'') (local_part @ CHR ''@'' # domain) = [local_part, domain]"
    using assms(1,2) by (simp add: split_chr_first split_chr_no_sep)
  then have "validate_email_domain (local_part @ CHR ''@'' # domain) = (False, access_restricted)"
    using assms(3)
    by (simp add: validate_email_domain_def Let_def ALLOWED_DOMAINS_def access_restricted_def)
  then show ?thesis
    by (simp add: register_user_def register_user_body_def generate_otp_def generate_otp_body_def)
qed

lemma companies_demo_initialised:
  "map c_domain (company_settings demo_initialised) = [''hhamedicine.com'', ''hssmedicine.com'']
   \<and> list_all c_is_active (company_settings demo_initialised)
   \<and> users demo_initialised = [] \<and> otp_codes demo_initialised = []"
  by (simp add: demo_initialised_def eval_simps)

lemma bypass_valid: "validate_email_domain demo_bypass_email = (True, ''hssmedicine.com'')"
  by (simp add: validate_email_domain_def demo_bypass_email_def str_simps)

lemma lower_bypass: "lower demo_bypass_email = demo_bypass_email"
  by (simp add: demo_bypass_email_def str_simps)

lemma split_bypass:
  "split_chr (CHR ''@'') demo_bypass_email = [''mallory'', ''hssmedicine.com'', ''evil.example'']"
  by (simp add: demo_bypass_email_def)


section \<open>The merging loop\<close>

lemma matching_inputs_Nil [simp]: "matching_inputs fs first_file [] = []"
  by (simp add: matching_inputs_def map_filter_simps)





section \<open>At most one live code for an email\<close>



section \<open>Expiry at verification\<close>

text \<open>
  C4, as the code has it. When the code given is the unused code stored for the email and
  the clock is past its \<open>expires_at\<close>, \<open>verify_otp\<close> of \<open>EnterpriseAuth\<close> returns
  \<open>success = False\<close> with the expiry message, marks that row used, and leaves the sessions
  and the users (so the login counts) as they were; the row stays used through every later
  run of operations. The backend's \<open>verify_otp_endpoint\<close> asks the store for an unexpired
  code only: the expired code is not found, the request is refused with status 400 and
  \<open>Invalid or expired OTP\<close>, no session is created and no user is updated; but the document
  is not marked used, and the attempts of the unused documents of the email, that
  document among them, grow by one.
\<close>

theorem verify_otp_expired:
  assumes "single_live_otp s" and "r \<in> set (otp_codes s)" and "o_email r = lower email"
    and "o_otp_code r = code" and "\<not> o_is_used r" and "now e > o_expires_at r"
    and "\<not> db_fault e"
  shows "\<not> success (snd (verify_otp e s email code))
       \<and> message (snd (verify_otp e s email code))
           = Some ''OTP has expired. Please request a new one.''
       \<and> otp_codes (fst (verify_otp e s email code)) = mark_used (o_id r) (otp_codes s)
       \<and> r\<lparr>o_is_used := True\<rparr> \<in> set (otp_codes (fst (verify_otp e s email code)))
       \<and> user_sessions (fst (verify_otp e s email code)) = user_sessions s
       \<and> users (fst (verify_otp e s email code)) = users s
       \<and> spent (run (fst (verify_otp e s email code)) cs) (o_id r)
       \<and> (server_single_live b \<and> d \<in> set (sv_otp_codes b) \<and> so_email d = lower bemail
          \<and> so_otp_code d = bcode \<and> \<not> so_is_used d \<and> utcnow be \<ge> so_expires_at d
          \<and> \<not> mongo_fault be \<longrightarrow>
            snd (verify_otp_endpoint be b bemail bcode)
              = Inl \<lparr>status_code = 400, detail = ''Invalid or expired OTP''\<rparr>
          \<and> sv_otp_codes (fst (verify_otp_endpoint be b bemail bcode))
              = update_many (\<lambda>x. so_email x = lower bemail \<and> \<not> so_is_used x)
                  (\<lambda>x. x\<lparr>so_attempts := so_attempts x + 1\<rparr>) (sv_otp_codes b)
          \<and> d\<lparr>so_attempts := so_attempts d + 1\<rparr>
              \<in> set (sv_otp_codes (fst (verify_otp_endpoint be b bemail bcode)))
          \<and> map so_is_used (sv_otp_codes (fst (verify_otp_endpoint be b bemail bcode)))
              = map so_is_used (sv_otp_codes b)
          \<and> sv_sessions (fst (verify_otp_endpoint be b bemail bcode)) = sv_sessions b
          \<and> sv_users (fst (verify_otp_endpoint be b bemail bcode)) = sv_users b)"
proof -
  have sel: "select_otp s (lower email) code = Some r"
    using assms(1-5) by (intro select_otp_single_live) simp_all
  have eq: "verify_otp e s email code =
           (s\<lparr>otp_codes := mark_used (o_id r) (otp_codes s)\<rparr>,
            failure ''OTP has expired. Please request a new one.'')"
    using sel assms(6,7) by (rule verify_otp_expired_eq)
  have "spent (s\<lparr>otp_codes := mark_used (o_id r) (otp_codes s)\<rparr>) (o_id r)"
    unfolding spent_iff using spent_mark_used [OF assms(2)] by simp
  then have "spent (run (s\<lparr>otp_codes := mark_used (o_id r) (otp_codes s)\<rparr>) cs) (o_id r)"
    by (rule spent_run)
  then have auth: "\<not> success (snd (verify_otp e s email code))
       \<and> message (snd (verify_otp e s email code))
           = Some ''OTP has expired. Please request a new one.''
       \<and> otp_codes (fst (verify_otp e s email code)) = mark_used (o_id r) (otp_codes s)
       \<and> r\<lparr>o_is_used := True\<rparr> \<in> set (otp_codes (fst (verify_otp e s email code)))
       \<and> user_sessions (fst (verify_otp e s email code)) = user_sessions s
       \<and> users (fst (verify_otp e s email code)) = users s
       \<and> spent (run (fst (verify_otp e s email code)) cs) (o_id r)"
    unfolding eq using marked_row_mem [OF assms(2)] by (simp add: failure_def)
  have backend: "snd (verify_otp_endpoint be b bemail bcode)
              = Inl \<lparr>status_code = 400, detail = ''Invalid or expired OTP''\<rparr>
          \<and> sv_otp_codes (fst (verify_otp_endpoint be b bemail bcode))
              = update_many (\<lambda>x. so_email x = lower bemail \<and> \<not> so_is_used x)
                  (\<lambda>x. x\<lparr>so_attempts := so_attempts x + 1\<rparr>) (sv_otp_codes b)
          \<and> d\<lparr>so_attempts := so_attempts d + 1\<rparr>
              \<in> set (sv_otp_codes (fst (verify_otp_endpoint be b bemail bcode)))
          \<and> map so_is_used (sv_otp_codes (fst (verify_otp_endpoint be b bemail bcode)))
              = map so_is_used (sv_otp_codes b)
          \<and> sv_sessions (fst (verify_otp_endpoint be b bemail bcode)) = sv_sessions b
          \<and> sv_users (fst (verify_otp_endpoint be b bemail bcode)) = sv_users b"
    if h: "server_single_live b \<and> d \<in> set (sv_otp_codes b) \<and> so_email d = lower bemail
          \<and> so_otp_code d = bcode \<and> \<not> so_is_used d \<and> utcnow be \<ge> so_expires_at d
          \<and> \<not> mongo_fault be"
  proof -
    have none: "find_otp be b (lower bemail) bcode = None"
      using h by (intro find_otp_expired [of b d]) simp_all
    have beq: "verify_otp_endpoint be b bemail bcode =
           (b\<lparr>sv_otp_codes :=
                update_many (\<lambda>d. so_email d = lower bemail \<and> \<not> so_is_used d)
                  (\<lambda>d. d\<lparr>so_attempts := so_attempts d + 1\<rparr>) (sv_otp_codes b)\<rparr>,
            Inl \<lparr>status_code = 400, detail = ''Invalid or expired OTP''\<rparr>)"
      using h none by (intro server_verify_not_found_eq) simp_all
    have "d\<lparr>so_attempts := so_attempts d + 1\<rparr>
            \<in> (\<lambda>x. if so_email x = lower bemail \<and> \<not> so_is_used x
                    then x\<lparr>so_attempts := so_attempts x + 1\<rparr> else x) ` set (sv_otp_codes b)"
      using h by (intro image_eqI [of _ _ d]) simp_all
    then have mem: "d\<lparr>so_attempts := so_attempts d + 1\<rparr>
            \<in> set (update_many (\<lambda>x. so_email x = lower bemail \<and> \<not> so_is_used x)
                     (\<lambda>x. x\<lparr>so_attempts := so_attempts x + 1\<rparr>) (sv_otp_codes b))"
      by (simp add: update_many_def)
    have used: "map so_is_used
            (update_many (\<lambda>x. so_email x = lower bemail \<and> \<not> so_is_used x)
               (\<lambda>x. x\<lparr>so_attempts := so_attempts x + 1\<rparr>) (sv_otp_codes b))
          = map so_is_used (sv_otp_codes b)"
      by (rule update_many_used) simp
    show ?thesis unfolding beq using mem used by simp
  qed
  show ?thesis using auth backend by blast
qed

theorem verify_otp_expired_witness:
  "single_live_otp demo_issued \<and> demo_row \<in> set (otp_codes demo_issued)
   \<and> \<not> o_is_used demo_row \<and> now (demo_env 700000000 0 []) > o_expires_at demo_row
   \<and> \<not> success (snd (verify_otp (demo_env 700000000 0 []) demo_issued demo_email ''100000''))
   \<and> otp_codes (fst (verify_otp (demo_env 700000000 0 []) demo_issued demo_email ''100000''))
       = [demo_row\<lparr>o_is_used := True\<rparr>]
   \<and> user_sessions (fst (verify_otp (demo_env 700000000 0 []) demo_issued demo_email ''100000''))
       = []
   \<and> server_single_live server_demo_issued
   \<and> server_demo_doc \<in> set (sv_otp_codes server_demo_issued)
   \<and> \<not> so_is_used server_demo_doc
   \<and> utcnow (server_demo_env 700000000 0 [] ''x-1'') \<ge> so_expires_at server_demo_doc
   \<and> snd (verify_otp_endpoint (server_demo_env 700000000 0 [] ''x-1'') server_demo_issued
            server_demo_email ''100000'')
       = Inl \<lparr>status_code = 400, detail = ''Invalid or expired OTP''\<rparr>
   \<and> sv_otp_codes (fst (verify_otp_endpoint (server_demo_env 700000000 0 [] ''x-1'')
                           server_demo_issued server_demo_email ''100000''))
       = [server_demo_doc\<lparr>so_attempts := 1\<rparr>]"
proof -
  have h: "server_single_live server_demo_issued
      \<and> server_demo_doc \<in> set (sv_otp_codes server_demo_issued)
      \<and> so_email server_demo_doc = lower server_demo_email
      \<and> so_otp_code server_demo_doc = ''100000'' \<and> \<not> so_is_used server_demo_doc
      \<and> utcnow (server_demo_env 700000000 0 [] ''x-1'') \<ge> so_expires_at server_demo_doc
      \<and> \<not> mongo_fault (server_demo_env 700000000 0 [] ''x-1'')"
    by (simp add: server_single_live_def sv_docs_demo_issued lower_server_demo)
      (simp add: server_demo_doc_def server_demo_env_def server_live_def)
  show ?thesis
    using verify_otp_expired [where s = demo_issued and r = demo_row and email = demo_email
        and code = "''100000''" and e = "demo_env 700000000 0 []" and cs = "[]"
        and b = server_demo_issued and d = server_demo_doc and bemail = server_demo_email
        and bcode = "''100000''" and be = "server_demo_env 700000000 0 [] ''x-1''"]
      single_live_demo_issued h
    by (simp add: otp_codes_demo_issued lower_demo user_sessions_demo_issued mark_used_def
        sv_docs_demo_issued lower_server_demo update_many_def)
      (simp add: demo_row_def demo_env_def server_demo_doc_def)
qed

text \<open>
  In the backend the code issued at time 2, unused and expired, is given at time
  700000000: the request is refused, and afterwards the document is still not marked
  used and its attempts are 1.
\<close>

theorem verify_otp_expired_counterexample:
  "sv_otp_codes server_demo_issued = [server_demo_doc]
   \<and> so_email server_demo_doc = lower server_demo_email
   \<and> so_otp_code server_demo_doc = ''100000'' \<and> \<not> so_is_used server_demo_doc
   \<and> utcnow (server_demo_env 700000000 0 [] ''x-1'') > so_expires_at server_demo_doc
   \<and> snd (verify_otp_endpoint (server_demo_env 700000000 0 [] ''x-1'') server_demo_issued
            server_demo_email ''100000'')
       = Inl \<lparr>status_code = 400, detail = ''Invalid or expired OTP''\<rparr>
   \<and> map so_is_used
        (sv_otp_codes (fst (verify_otp_endpoint (server_demo_env 700000000 0 [] ''x-1'')
                              server_demo_issued server_demo_email ''100000'')))
       = [False]
   \<and> map so_attempts
        (sv_otp_codes (fst (verify_otp_endpoint (server_demo_env 700000000 0 [] ''x-1'')
                              server_demo_issued server_demo_email ''100000'')))
       = [1]"
  by (simp add: verify_otp_endpoint_def find_otp_def sv_docs_demo_issued lower_server_demo
      update_many_def)
    (simp add: server_demo_doc_def server_demo_env_def)

section \<open>The limit on failed attempts\<close>

text \<open>
  C8, as the code has it. In \<open>EnterpriseAuth\<close>, a call of \<open>verify_otp\<close> that finds no unused
  row with the email and the code adds one to the attempts counter of every unused row of
  the email (and changes nothing else in the table); every other call, the unsuccessful
  ones included (expired code, limit reached, unknown user, database error), leaves all
  counters as they were; and when the row found is not expired and its counter has
  reached 3, \<open>verify_otp\<close> returns the failure of too many attempts, marks the row used and
  leaves the sessions and the users as they were. In the backend, a request for which the
  store finds no unused, unexpired document with the email and the code (a wrong code,
  or the right code after its expiry) adds one to the attempts of every unused document
  of the email and is refused with status 400; every other request leaves all counters
  as they were; and when the document found has reached 3 attempts, the request is
  refused with status 400 and \<open>Too many failed attempts\<close>, the document is marked used, and
  the sessions and the users stay as they were.
\<close>

theorem verify_otp_attempt_limit:
  "(\<not> db_fault e \<and> select_otp s (lower email) code = None \<longrightarrow>
      \<not> success (snd (verify_otp e s email code))
    \<and> otp_codes (fst (verify_otp e s email code))
        = map (\<lambda>r. if o_email r = lower email \<and> \<not> o_is_used r
                    then r\<lparr>o_attempts := o_attempts r + 1\<rparr> else r) (otp_codes s))
   \<and> (\<not> db_fault e \<and> single_live_otp s \<and> r \<in> set (otp_codes s) \<and> o_email r = lower email
      \<and> o_otp_code r = code \<and> \<not> o_is_used r \<and> \<not> now e > o_expires_at r
      \<and> o_attempts r \<ge> 3 \<longrightarrow>
        \<not> success (snd (verify_otp e s email code))
      \<and> message (snd (verify_otp e s email code))
          = Some ''Too many failed attempts. Please request a new OTP.''
      \<and> otp_codes (fst (verify_otp e s email code)) = mark_used (o_id r) (otp_codes s)
      \<and> r\<lparr>o_is_used := True\<rparr> \<in> set (otp_codes (fst (verify_otp e s email code)))
      \<and> user_sessions (fst (verify_otp e s email code)) = user_sessions s
      \<and> users (fst (verify_otp e s email code)) = users s)
   \<and> (db_fault e \<or> select_otp s (lower email) code \<noteq> None \<longrightarrow>
        map o_attempts (otp_codes (fst (verify_otp e s email code)))
          = map o_attempts (otp_codes s))
   \<and> (\<not> mongo_fault be \<and> find_otp be b (lower bemail) bcode = None \<longrightarrow>
        snd (verify_otp_endpoint be b bemail bcode)
          = Inl \<lparr>status_code = 400, detail = ''Invalid or expired OTP''\<rparr>
      \<and> sv_otp_codes (fst (verify_otp_endpoint be b bemail bcode))
          = map (\<lambda>x. if so_email x = lower bemail \<and> \<not> so_is_used x
                      then x\<lparr>so_attempts := so_attempts x + 1\<rparr> else x) (sv_otp_codes b))
   \<and> (\<not> mongo_fault be \<and> server_single_live b \<and> distinct (map so_id (sv_otp_codes b))
      \<and> d \<in> set (sv_otp_codes b) \<and> so_email d = lower bemail \<and> so_otp_code d = bcode
      \<and> \<not> so_is_used d \<and> utcnow be < so_expires_at d \<and> so_attempts d \<ge> 3 \<longrightarrow>
        snd (verify_otp_endpoint be b bemail bcode)
          = Inl \<lparr>status_code = 400, detail = ''Too many failed attempts''\<rparr>
      \<and> sv_otp_codes (fst (verify_otp_endpoint be b bemail bcode))
          = update_one (\<lambda>x. so_id x = so_id d) (\<lambda>x. x\<lparr>so_is_used := True\<rparr>) (sv_otp_codes b)
      \<and> d\<lparr>so_is_used := True\<rparr>
          \<in> set (sv_otp_codes (fst (verify_otp_endpoint be b bemail bcode)))
      \<and> sv_sessions (fst (verify_otp_endpoint be b bemail bcode)) = sv_sessions b
      \<and> sv_users (fst (verify_otp_endpoint be b bemail bcode)) = sv_users b)
   \<and> (mongo_fault be \<or> find_otp be b (lower bemail) bcode \<noteq> None \<longrightarrow>
        map so_attempts (sv_otp_codes (fst (verify_otp_endpoint be b bemail bcode)))
          = map so_attempts (sv_otp_codes b))"
proof (intro conjI impI)
  assume a: "\<not> db_fault e \<and> select_otp s (lower email) code = None"
  then have eq: "verify_otp e s email code =
           (s\<lparr>otp_codes := increment_attempts (lower email) (otp_codes s)\<rparr>,
            failure ''Invalid OTP code. Please check and try again.'')"
    by (intro verify_otp_invalid_eq) simp_all
  show "\<not> success (snd (verify_otp e s email code))" unfolding eq by (simp add: failure_def)
  show "otp_codes (fst (verify_otp e s email code))
              = map (\<lambda>r. if o_email r = lower email \<and> \<not> o_is_used r
                          then r\<lparr>o_attempts := o_attempts r + 1\<rparr> else r) (otp_codes s)"
    unfolding eq by (simp add: increment_attempts_def)
next
  assume h: "\<not> db_fault e \<and> single_live_otp s \<and> r \<in> set (otp_codes s) \<and> o_email r = lower email
          \<and> o_otp_code r = code \<and> \<not> o_is_used r \<and> \<not> now e > o_expires_at r
          \<and> o_attempts r \<ge> 3"
  then have sel: "select_otp s (lower email) code = Some r"
    by (intro select_otp_single_live) simp_all
  have eq: "verify_otp e s email code =
           (s\<lparr>otp_codes := mark_used (o_id r) (otp_codes s)\<rparr>,
            failure ''Too many failed attempts. Please request a new OTP.'')"
    using sel h by (intro verify_otp_attempts_eq) simp_all
  have mem: "r\<lparr>o_is_used := True\<rparr> \<in> set (mark_used (o_id r) (otp_codes s))"
    using h by (intro marked_row_mem) simp
  show "\<not> success (snd (verify_otp e s email code))" unfolding eq by (simp add: failure_def)
  show "message (snd (verify_otp e s email code))
              = Some ''Too many failed attempts. Please request a new OTP.''"
    unfolding eq by (simp add: failure_def)
  show "otp_codes (fst (verify_otp e s email code)) = mark_used (o_id r) (otp_codes s)"
    unfolding eq by simp
  show "r\<lparr>o_is_used := True\<rparr> \<in> set (otp_codes (fst (verify_otp e s email code)))"
    unfolding eq using mem by simp
  show "user_sessions (fst (verify_otp e s email code)) = user_sessions s" unfolding eq by simp
  show "users (fst (verify_otp e s email code)) = users s" unfolding eq by simp
next
  assume "db_fault e \<or> select_otp s (lower email) code \<noteq> None"
  then show "map o_attempts (otp_codes (fst (verify_otp e s email code)))
          = map o_attempts (otp_codes s)"
    by (rule verify_otp_attempts_unchanged)
next
  assume a: "\<not> mongo_fault be \<and> find_otp be b (lower bemail) bcode = None"
  then have eq: "verify_otp_endpoint be b bemail bcode =
           (b\<lparr>sv_otp_codes :=
                update_many (\<lambda>d. so_email d = lower bemail \<and> \<not> so_is_used d)
                  (\<lambda>d. d\<lparr>so_attempts := so_attempts d + 1\<rparr>) (sv_otp_codes b)\<rparr>,
            Inl \<lparr>status_code = 400, detail = ''Invalid or expired OTP''\<rparr>)"
    by (intro server_verify_not_found_eq) simp_all
  show "snd (verify_otp_endpoint be b bemail bcode)
          = Inl \<lparr>status_code = 400, detail = ''Invalid or expired OTP''\<rparr>"
    unfolding eq by simp
  show "sv_otp_codes (fst (verify_otp_endpoint be b bemail bcode))
          = map (\<lambda>x. if so_email x = lower bemail \<and> \<not> so_is_used x
                      then x\<lparr>so_attempts := so_attempts x + 1\<rparr> else x) (sv_otp_codes b)"
    unfolding eq by (simp add: update_many_def)
next
  assume h: "\<not> mongo_fault be \<and> server_single_live b \<and> distinct (map so_id (sv_otp_codes b))
      \<and> d \<in> set (sv_otp_codes b) \<and> so_email d = lower bemail \<and> so_otp_code d = bcode
      \<and> \<not> so_is_used d \<and> utcnow be < so_expires_at d \<and> so_attempts d \<ge> 3"
  then have f: "find_otp be b (lower bemail) bcode = Some d"
    by (intro find_otp_single_live) simp_all
  have eq: "verify_otp_endpoint be b bemail bcode =
           (b\<lparr>sv_otp_codes :=
                update_one (\<lambda>x. so_id x = so_id d) (\<lambda>x. x\<lparr>so_is_used := True\<rparr>)
                  (sv_otp_codes b)\<rparr>,
            Inl \<lparr>status_code = 400, detail = ''Too many failed attempts''\<rparr>)"
    using h f by (intro server_verify_limit_eq) simp_all
  have mem: "d\<lparr>so_is_used := True\<rparr>
           \<in> set (update_one (\<lambda>x. so_id x = so_id d) (\<lambda>x. x\<lparr>so_is_used := True\<rparr>)
                    (sv_otp_codes b))"
    using h by (intro update_one_marks) simp_all
  show "snd (verify_otp_endpoint be b bemail bcode)
          = Inl \<lparr>status_code = 400, detail = ''Too many failed attempts''\<rparr>"
    unfolding eq by simp
  show "sv_otp_codes (fst (verify_otp_endpoint be b bemail bcode))
          = update_one (\<lambda>x. so_id x = so_id d) (\<lambda>x. x\<lparr>so_is_used := True\<rparr>) (sv_otp_codes b)"
    unfolding eq by simp
  show "d\<lparr>so_is_used := True\<rparr>
          \<in> set (sv_otp_codes (fst (verify_otp_endpoint be b bemail bcode)))"
    unfolding eq using mem by simp
  show "sv_sessions (fst (verify_otp_endpoint be b bemail bcode)) = sv_sessions b"
    unfolding eq by simp
  show "sv_users (fst (verify_otp_endpoint be b bemail bcode)) = sv_users b"
    unfolding eq by simp
next
  assume "mongo_fault be \<or> find_otp be b (lower bemail) bcode \<noteq> None"
  then show "map so_attempts (sv_otp_codes (fst (verify_otp_endpoint be b bemail bcode)))
          = map so_attempts (sv_otp_codes b)"
    by (rule server_verify_attempts_unchanged)
qed

theorem verify_otp_attempt_limit_witness:
  "select_otp demo_issued (lower demo_email) ''000000'' = None
   \<and> map o_attempts (otp_codes (fst (verify_otp (demo_env 3 0 []) demo_issued demo_email ''000000'')))
       = [1]
   \<and> single_live_otp demo_locked \<and> demo_row\<lparr>o_attempts := 3\<rparr> \<in> set (otp_codes demo_locked)
   \<and> \<not> now (demo_env 6 0 ''token-1'') > o_expires_at (demo_row\<lparr>o_attempts := 3\<rparr>)
   \<and> \<not> success (snd (verify_otp (demo_env 6 0 ''token-1'') demo_locked demo_email ''100000''))
   \<and> map o_is_used
        (otp_codes (fst (verify_otp (demo_env 6 0 ''token-1'') demo_locked demo_email ''100000'')))
       = [True]
   \<and> select_otp demo_issued (lower demo_email) ''100000'' \<noteq> None
   \<and> map o_attempts
        (otp_codes (fst (verify_otp (demo_env 700000000 0 []) demo_issued demo_email ''100000'')))
       = [0]
   \<and> find_otp (server_demo_env 3 0 [] ''x-1'') server_demo_issued (lower server_demo_email)
        ''000000'' = None
   \<and> map so_attempts
        (sv_otp_codes (fst (verify_otp_endpoint (server_demo_env 3 0 [] ''x-1'')
                              server_demo_issued server_demo_email ''000000'')))
       = [1]
   \<and> server_single_live server_demo_locked
   \<and> server_demo_doc\<lparr>so_attempts := 3\<rparr> \<in> set (sv_otp_codes server_demo_locked)
   \<and> utcnow (server_demo_env 6 0 ''token-1'' ''session-1'')
       < so_expires_at (server_demo_doc\<lparr>so_attempts := 3\<rparr>)
   \<and> snd (verify_otp_endpoint (server_demo_env 6 0 ''token-1'' ''session-1'') server_demo_locked
            server_demo_email ''100000'')
       = Inl \<lparr>status_code = 400, detail = ''Too many failed attempts''\<rparr>
   \<and> map so_is_used
        (sv_otp_codes (fst (verify_otp_endpoint (server_demo_env 6 0 ''token-1'' ''session-1'')
                              server_demo_locked server_demo_email ''100000'')))
       = [True]
   \<and> find_otp (server_demo_env 3 0 ''token-1'' ''session-1'') server_demo_stranger_issued
        (lower server_demo_stranger) ''100000'' \<noteq> None
   \<and> map so_attempts
        (sv_otp_codes (fst (verify_otp_endpoint (server_demo_env 3 0 ''token-1'' ''session-1'')
                              server_demo_stranger_issued server_demo_stranger ''100000'')))
       = [0]"
proof -
  have f: "\<not> db_fault (demo_env 3 0 [])" "\<not> db_fault (demo_env 6 0 ''token-1'')"
    "\<not> mongo_fault (server_demo_env 3 0 [] ''x-1'')"
    "\<not> mongo_fault (server_demo_env 6 0 ''token-1'' ''session-1'')"
    by (simp_all add: demo_env_def server_demo_env_def)
  have a: "select_otp demo_issued (lower demo_email) ''000000'' = None"
    by (simp add: lower_demo select_demo_issued_wrong)
  have b: "single_live_otp demo_locked \<and> demo_row\<lparr>o_attempts := 3\<rparr> \<in> set (otp_codes demo_locked)
      \<and> o_email (demo_row\<lparr>o_attempts := 3\<rparr>) = lower demo_email
      \<and> o_otp_code (demo_row\<lparr>o_attempts := 3\<rparr>) = ''100000''
      \<and> \<not> o_is_used (demo_row\<lparr>o_attempts := 3\<rparr>)
      \<and> \<not> now (demo_env 6 0 ''token-1'') > o_expires_at (demo_row\<lparr>o_attempts := 3\<rparr>)
      \<and> o_attempts (demo_row\<lparr>o_attempts := 3\<rparr>) \<ge> 3"
    by (simp add: single_live_demo_locked otp_codes_demo_locked lower_demo)
      (simp add: demo_row_def demo_env_def)
  have c: "select_otp demo_issued (lower demo_email) ''100000'' \<noteq> None"
    by (simp add: lower_demo select_demo_issued)
  have sa: "find_otp (server_demo_env 3 0 [] ''x-1'') server_demo_issued
              (lower server_demo_email) ''000000'' = None"
    by (simp add: find_otp_def sv_docs_demo_issued server_demo_doc_def)
  have sb: "server_single_live server_demo_locked
      \<and> distinct (map so_id (sv_otp_codes server_demo_locked))
      \<and> server_demo_doc\<lparr>so_attempts := 3\<rparr> \<in> set (sv_otp_codes server_demo_locked)
      \<and> so_email (server_demo_doc\<lparr>so_attempts := 3\<rparr>) = lower server_demo_email
      \<and> so_otp_code (server_demo_doc\<lparr>so_attempts := 3\<rparr>) = ''100000''
      \<and> \<not> so_is_used (server_demo_doc\<lparr>so_attempts := 3\<rparr>)
      \<and> utcnow (server_demo_env 6 0 ''token-1'' ''session-1'')
          < so_expires_at (server_demo_doc\<lparr>so_attempts := 3\<rparr>)
      \<and> so_attempts (server_demo_doc\<lparr>so_attempts := 3\<rparr>) \<ge> 3"
    by (simp add: server_single_live_def sv_docs_demo_locked lower_server_demo)
      (simp add: server_demo_doc_def server_demo_env_def server_live_def)
  have sc: "find_otp (server_demo_env 3 0 ''token-1'' ''session-1'') server_demo_stranger_issued
        (lower server_demo_stranger) ''100000'' \<noteq> None"
    by (simp add: find_otp_def sv_state_demo_stranger_issued lower_server_stranger)
      (simp add: server_demo_doc_def server_demo_env_def)
  show ?thesis
    using a b c sa sb sc f
      verify_otp_attempt_limit [where e = "demo_env 3 0 []" and s = demo_issued
        and email = demo_email and code = "''000000''" and r = demo_row
        and be = "server_demo_env 3 0 [] ''x-1''" and b = server_demo_issued
        and bemail = server_demo_email and bcode = "''000000''" and d = server_demo_doc]
      verify_otp_attempt_limit [where e = "demo_env 6 0 ''token-1''" and s = demo_locked
        and email = demo_email and code = "''100000''" and r = "demo_row\<lparr>o_attempts := 3\<rparr>"
        and be = "server_demo_env 6 0 ''token-1'' ''session-1''" and b = server_demo_locked
        and bemail = server_demo_email and bcode = "''100000''"
        and d = "server_demo_doc\<lparr>so_attempts := 3\<rparr>"]
      verify_otp_attempt_limit [where e = "demo_env 700000000 0 []" and s = demo_issued
        and email = demo_email and code = "''100000''" and r = demo_row
        and be = "server_demo_env 3 0 ''token-1'' ''session-1''"
        and b = server_demo_stranger_issued
        and bemail = server_demo_stranger and bcode = "''100000''" and d = server_demo_doc]
    by (simp add: otp_codes_demo_issued otp_codes_demo_locked lower_demo mark_used_def
        sv_docs_demo_issued sv_docs_demo_locked sv_state_demo_stranger_issued
        lower_server_demo lower_server_stranger)
      (simp add: demo_row_def server_demo_doc_def)
qed

text \<open>
  Not every unsuccessful call counts an attempt. In \<open>EnterpriseAuth\<close>, with the right code
  for an address that no user has registered, and with the right code after its expiry,
  the call fails and the counter of the row, unused when the call was made, stays at 0.
  In the backend, with the right code for an address that no user has registered, the
  request is refused with status 404 and the counter of the document, unused when the
  request was made, stays at 0.
\<close>

theorem verify_otp_attempt_limit_counterexample:
  "map o_is_used (otp_codes demo_stranger_issued) = [False]
   \<and> map o_email (otp_codes demo_stranger_issued) = [lower demo_stranger]
   \<and> \<not> success (snd (verify_otp (demo_env 3 0 ''token-1'') demo_stranger_issued demo_stranger ''100000''))
   \<and> map o_attempts (otp_codes demo_stranger_issued) = [0]
   \<and> map o_attempts
        (otp_codes (fst (verify_otp (demo_env 3 0 ''token-1'') demo_stranger_issued demo_stranger ''100000'')))
       = [0]
   \<and> map o_is_used (otp_codes demo_issued) = [False]
   \<and> \<not> success (snd (verify_otp (demo_env 700000000 0 []) demo_issued demo_email ''100000''))
   \<and> map o_attempts
        (otp_codes (fst (verify_otp (demo_env 700000000 0 []) demo_issued demo_email ''100000'')))
       = map o_attempts (otp_codes demo_issued)
   \<and> map so_is_used (sv_otp_codes server_demo_stranger_issued) = [False]
   \<and> map so_email (sv_otp_codes server_demo_stranger_issued) = [lower server_demo_stranger]
   \<and> map so_attempts (sv_otp_codes server_demo_stranger_issued) = [0]
   \<and> snd (verify_otp_endpoint (server_demo_env 3 0 ''token-1'' ''session-1'')
            server_demo_stranger_issued server_demo_stranger ''100000'')
       = Inl \<lparr>status_code = 404, detail = ''User not found. Please register first.''\<rparr>
   \<and> map so_attempts
        (sv_otp_codes (fst (verify_otp_endpoint (server_demo_env 3 0 ''token-1'' ''session-1'')
                              server_demo_stranger_issued server_demo_stranger ''100000'')))
       = [0]"
proof -
  have sel: "select_otp demo_stranger_issued (lower demo_stranger) ''100000''
               = Some (demo_row\<lparr>o_email := demo_stranger\<rparr>)"
    by (simp add: select_otp_def otp_codes_demo_stranger_issued lower_demo_stranger demo_row_def)
  have a: "verify_otp (demo_env 3 0 ''token-1'') demo_stranger_issued demo_stranger ''100000''
             = (demo_stranger_issued, failure ''User not found. Please register first.'')"
    using sel
    by (rule verify_otp_no_user_eq)
      (simp_all add: demo_row_def demo_env_def lower_demo_stranger users_demo_stranger_issued_find)
  have b: "verify_otp (demo_env 700000000 0 []) demo_issued demo_email ''100000''
             = (demo_issued\<lparr>otp_codes := mark_used (o_id demo_row) (otp_codes demo_issued)\<rparr>,
                failure ''OTP has expired. Please request a new one.'')"
    by (rule verify_otp_expired_eq)
      (simp_all add: lower_demo select_demo_issued demo_row_def demo_env_def)
  have c: "verify_otp_endpoint (server_demo_env 3 0 ''token-1'' ''session-1'')
            server_demo_stranger_issued server_demo_stranger ''100000''
         = (server_demo_stranger_issued
              \<lparr>sv_otp_codes := [server_demo_doc\<lparr>so_email := server_demo_stranger,
                                                 so_is_used := True\<rparr>]\<rparr>,
            Inl \<lparr>status_code = 404, detail = ''User not found. Please register first.''\<rparr>)"
    by (simp add: verify_otp_endpoint_def find_otp_def sv_state_demo_stranger_issued
        lower_server_stranger Let_def)
      (simp add: server_demo_doc_def server_demo_env_def)
  show ?thesis unfolding a b c
    by (simp add: otp_codes_demo_stranger_issued otp_codes_demo_issued failure_def
        lower_demo_stranger mark_used_def demo_row_def sv_state_demo_stranger_issued
        lower_server_stranger server_demo_doc_def)
qed

section \<open>Codes only move forward\<close>




section \<open>Session validation\<close>

text \<open>
  C5, as the code has it. In \<open>EnterpriseAuth\<close>, with the schema's constraints (session tokens
  unique, user ids unique) and a working database, \<open>validate_session\<close> succeeds exactly
  when a stored session has the token, is active, joins to a user and does not expire
  before the current time (a session that expires exactly now is still accepted). When
  the session matched has expired, the call fails and sets that session inactive; on
  success it returns the data of the user matched and changes nothing but \<open>last_activity\<close>
  of that session. The backend's \<open>validate_session\<close>, with session tokens and user ids
  unique and a working store, succeeds exactly when a stored session has the token, is
  active, joins to a user and expires later than the current time; it never changes
  \<open>is_active\<close> of a session, so a session that has expired is refused and stays active; on
  success it returns the user matched and changes nothing but \<open>last_activity\<close> of that
  session.
\<close>

theorem validate_session_spec:
  assumes "\<not> db_fault e" and "distinct (map s_session_token (user_sessions s))"
    and "distinct (map u_id (users s))"
  shows "(success (snd (validate_session e s tok)) \<longleftrightarrow>
            (\<exists>x u. x \<in> set (user_sessions s) \<and> s_session_token x = tok \<and> s_is_active x
                 \<and> u \<in> set (users s) \<and> u_id u = s_user_id x \<and> now e \<le> s_expires_at x))
       \<and> (x \<in> set (user_sessions s) \<and> s_session_token x = tok \<and> s_is_active x
          \<and> u \<in> set (users s) \<and> u_id u = s_user_id x \<longrightarrow>
            (now e > s_expires_at x \<longrightarrow>
               validate_session e s tok =
                 (s\<lparr>user_sessions :=
                      map (\<lambda>y. if y = x then y\<lparr>s_is_active := False\<rparr> else y) (user_sessions s)\<rparr>,
                  failure ''Session expired. Please login again.''))
          \<and> (now e \<le> s_expires_at x \<longrightarrow>
               validate_session e s tok =
                 (s\<lparr>user_sessions :=
                      map (\<lambda>y. if y = x then y\<lparr>s_last_activity := current_timestamp e\<rparr> else y)
                        (user_sessions s)\<rparr>,
                  \<lparr>success = True, message = None, r_user_id = None,
                   r_expires_in_minutes = None, r_session_token = None,
                   r_user_data = Some
                     \<lparr>ud_user_id = s_user_id x, ud_email = u_email u,
                      ud_full_name = u_full_name u, ud_department = u_department u,
                      ud_company_domain = u_company_domain u,
                      ud_session_expires = s_expires_at x\<rparr>\<rparr>)))
       \<and>
     (\<not> mongo_fault be \<and> distinct (map ss_session_token (sv_sessions b))
      \<and> distinct (map su_id (sv_users b)) \<longrightarrow>
        ((\<exists>w. snd (server_validate_session be b btok) = Inr w) \<longleftrightarrow>
           (\<exists>y v. y \<in> set (sv_sessions b) \<and> ss_session_token y = btok \<and> ss_is_active y
                \<and> v \<in> set (sv_users b) \<and> su_id v = ss_user_id y
                \<and> utcnow be < ss_expires_at y))
      \<and> map ss_is_active (sv_sessions (fst (server_validate_session be b btok)))
          = map ss_is_active (sv_sessions b)
      \<and> (y \<in> set (sv_sessions b) \<and> ss_session_token y = btok \<and> ss_is_active y
         \<and> v \<in> set (sv_users b) \<and> su_id v = ss_user_id y \<longrightarrow>
           (\<not> utcnow be < ss_expires_at y \<longrightarrow>
              server_validate_session be b btok =
                (b, Inl \<lparr>status_code = 401, detail = ''Authentication failed''\<rparr>))
         \<and> (utcnow be < ss_expires_at y \<longrightarrow>
              server_validate_session be b btok =
                (b\<lparr>sv_sessions :=
                     map (\<lambda>z. if z = y then z\<lparr>ss_last_activity := utcnow be\<rparr> else z)
                       (sv_sessions b)\<rparr>,
                 Inr v))))"
proof -
  have backend: "(\<not> mongo_fault be \<and> distinct (map ss_session_token (sv_sessions b))
      \<and> distinct (map su_id (sv_users b)) \<longrightarrow>
        ((\<exists>w. snd (server_validate_session be b btok) = Inr w) \<longleftrightarrow>
           (\<exists>y v. y \<in> set (sv_sessions b) \<and> ss_session_token y = btok \<and> ss_is_active y
                \<and> v \<in> set (sv_users b) \<and> su_id v = ss_user_id y
                \<and> utcnow be < ss_expires_at y))
      \<and> map ss_is_active (sv_sessions (fst (server_validate_session be b btok)))
          = map ss_is_active (sv_sessions b)
      \<and> (y \<in> set (sv_sessions b) \<and> ss_session_token y = btok \<and> ss_is_active y
         \<and> v \<in> set (sv_users b) \<and> su_id v = ss_user_id y \<longrightarrow>
           (\<not> utcnow be < ss_expires_at y \<longrightarrow>
              server_validate_session be b btok =
                (b, Inl \<lparr>status_code = 401, detail = ''Authentication failed''\<rparr>))
         \<and> (utcnow be < ss_expires_at y \<longrightarrow>
              server_validate_session be b btok =
                (b\<lparr>sv_sessions :=
                     map (\<lambda>z. if z = y then z\<lparr>ss_last_activity := utcnow be\<rparr> else z)
                       (sv_sessions b)\<rparr>,
                 Inr v))))"
  proof (intro conjI impI)
    assume h: "\<not> mongo_fault be \<and> distinct (map ss_session_token (sv_sessions b))
      \<and> distinct (map su_id (sv_users b))"
    then show "(\<exists>w. snd (server_validate_session be b btok) = Inr w) \<longleftrightarrow>
           (\<exists>y v. y \<in> set (sv_sessions b) \<and> ss_session_token y = btok \<and> ss_is_active y
                \<and> v \<in> set (sv_users b) \<and> su_id v = ss_user_id y
                \<and> utcnow be < ss_expires_at y)"
      by (intro server_validate_success_iff) simp_all
    show "map ss_is_active (sv_sessions (fst (server_validate_session be b btok)))
          = map ss_is_active (sv_sessions b)"
      by (rule server_validate_active)
    assume m: "y \<in> set (sv_sessions b) \<and> ss_session_token y = btok \<and> ss_is_active y
         \<and> v \<in> set (sv_users b) \<and> su_id v = ss_user_id y"
    show "server_validate_session be b btok =
                (b, Inl \<lparr>status_code = 401, detail = ''Authentication failed''\<rparr>)"
      if "\<not> utcnow be < ss_expires_at y"
      using h m that by (intro server_validate_expired_eq [of b y]) simp_all
    show "server_validate_session be b btok =
                (b\<lparr>sv_sessions :=
                     map (\<lambda>z. if z = y then z\<lparr>ss_last_activity := utcnow be\<rparr> else z)
                       (sv_sessions b)\<rparr>,
                 Inr v)"
      if "utcnow be < ss_expires_at y"
      using h m that by (intro server_validate_success_eq) simp_all
  qed
  have auth: "(success (snd (validate_session e s tok)) \<longleftrightarrow>
            (\<exists>x u. x \<in> set (user_sessions s) \<and> s_session_token x = tok \<and> s_is_active x
                 \<and> u \<in> set (users s) \<and> u_id u = s_user_id x \<and> now e \<le> s_expires_at x))
       \<and> (x \<in> set (user_sessions s) \<and> s_session_token x = tok \<and> s_is_active x
          \<and> u \<in> set (users s) \<and> u_id u = s_user_id x \<longrightarrow>
            (now e > s_expires_at x \<longrightarrow>
               validate_session e s tok =
                 (s\<lparr>user_sessions :=
                      map (\<lambda>y. if y = x then y\<lparr>s_is_active := False\<rparr> else y) (user_sessions s)\<rparr>,
                  failure ''Session expired. Please login again.''))
          \<and> (now e \<le> s_expires_at x \<longrightarrow>
               validate_session e s tok =
                 (s\<lparr>user_sessions :=
                      map (\<lambda>y. if y = x then y\<lparr>s_last_activity := current_timestamp e\<rparr> else y)
                        (user_sessions s)\<rparr>,
                  \<lparr>success = True, message = None, r_user_id = None,
                   r_expires_in_minutes = None, r_session_token = None,
                   r_user_data = Some
                     \<lparr>ud_user_id = s_user_id x, ud_email = u_email u,
                      ud_full_name = u_full_name u, ud_department = u_department u,
                      ud_company_domain = u_company_domain u,
                      ud_session_expires = s_expires_at x\<rparr>\<rparr>)))"
  proof (intro conjI impI)
  show "success (snd (validate_session e s tok)) \<longleftrightarrow>
            (\<exists>x u. x \<in> set (user_sessions s) \<and> s_session_token x = tok \<and> s_is_active x
                 \<and> u \<in> set (users s) \<and> u_id u = s_user_id x \<and> now e \<le> s_expires_at x)"
  proof (cases "select_session s tok")
    case None
    then have "validate_session e s tok = (s, failure ''Invalid session. Please login again.'')"
      using assms(1) by (intro validate_session_none)
    moreover have "\<not> (\<exists>x u. x \<in> set (user_sessions s) \<and> s_session_token x = tok \<and> s_is_active x
                 \<and> u \<in> set (users s) \<and> u_id u = s_user_id x \<and> now e \<le> s_expires_at x)"
      using None unfolding select_session_None_iff [OF assms(2,3)] by blast
    ultimately show ?thesis by (simp add: failure_def)
  next
    case (Some p)
    obtain x0 u0 where p: "p = (x0, u0)" by (cases p)
    have sel: "select_session s tok = Some (x0, u0)" using Some p by simp
    have v: "success (snd (validate_session e s tok)) \<longleftrightarrow> now e \<le> s_expires_at x0"
      unfolding validate_session_selected [OF assms(1) sel] by (simp add: failure_def not_less)
    have c0: "x0 \<in> set (user_sessions s) \<and> s_session_token x0 = tok \<and> s_is_active x0
           \<and> u0 \<in> set (users s) \<and> u_id u0 = s_user_id x0"
      using sel unfolding select_session_iff [OF assms(2,3)] .
    have uniq: "x' = x0" if "x' \<in> set (user_sessions s) \<and> s_session_token x' = tok \<and> s_is_active x'
           \<and> u' \<in> set (users s) \<and> u_id u' = s_user_id x'" for x' u'
    proof -
      from that have "select_session s tok = Some (x', u')"
        unfolding select_session_iff [OF assms(2,3)] .
      with sel show ?thesis by simp
    qed
    show ?thesis unfolding v using c0 uniq by blast
  qed
next
  assume h: "x \<in> set (user_sessions s) \<and> s_session_token x = tok \<and> s_is_active x
          \<and> u \<in> set (users s) \<and> u_id u = s_user_id x"
  then have sel: "select_session s tok = Some (x, u)"
    unfolding select_session_iff [OF assms(2,3)] .
  from h have tok: "tok = s_session_token x" and mem: "x \<in> set (user_sessions s)" by simp_all
  show "validate_session e s tok =
                 (s\<lparr>user_sessions :=
                      map (\<lambda>y. if y = x then y\<lparr>s_is_active := False\<rparr> else y) (user_sessions s)\<rparr>,
                  failure ''Session expired. Please login again.'')"
    if "now e > s_expires_at x"
    unfolding validate_session_selected [OF assms(1) sel] using that
    by (simp add: tok map_token_unique [OF assms(2) mem])
  show "validate_session e s tok =
                 (s\<lparr>user_sessions :=
                      map (\<lambda>y. if y = x then y\<lparr>s_last_activity := current_timestamp e\<rparr> else y)
                        (user_sessions s)\<rparr>,
                  \<lparr>success = True, message = None, r_user_id = None,
                   r_expires_in_minutes = None, r_session_token = None,
                   r_user_data = Some
                     \<lparr>ud_user_id = s_user_id x, ud_email = u_email u,
                      ud_full_name = u_full_name u, ud_department = u_department u,
                      ud_company_domain = u_company_domain u,
                      ud_session_expires = s_expires_at x\<rparr>\<rparr>)"
    if "now e \<le> s_expires_at x"
    unfolding validate_session_selected [OF assms(1) sel] using that
    by (simp add: tok map_token_unique [OF assms(2) mem])
  qed
  show ?thesis using auth backend by blast
qed

theorem validate_session_spec_witness:
  "\<not> db_fault (demo_env 10 0 []) \<and> distinct (map s_session_token (user_sessions demo_logged_in))
   \<and> distinct (map u_id (users demo_logged_in))
   \<and> demo_session \<in> set (user_sessions demo_logged_in) \<and> demo_user \<in> set (users demo_logged_in)
   \<and> now (demo_env 10 0 []) \<le> s_expires_at demo_session
   \<and> success (snd (validate_session (demo_env 10 0 []) demo_logged_in ''token-1''))
   \<and> user_sessions (fst (validate_session (demo_env 10 0 []) demo_logged_in ''token-1''))
       = [demo_session\<lparr>s_last_activity := 10\<rparr>]
   \<and> \<not> mongo_fault (server_demo_env 10 0 [] ''x-1'')
   \<and> distinct (map ss_session_token (sv_sessions server_demo_logged_in))
   \<and> distinct (map su_id (sv_users server_demo_logged_in))
   \<and> server_demo_session \<in> set (sv_sessions server_demo_logged_in)
   \<and> server_demo_user \<in> set (sv_users server_demo_logged_in)
   \<and> utcnow (server_demo_env 10 0 [] ''x-1'') < ss_expires_at server_demo_session
   \<and> server_validate_session (server_demo_env 10 0 [] ''x-1'') server_demo_logged_in ''token-1''
       = (server_demo_logged_in
            \<lparr>sv_sessions := [server_demo_session\<lparr>ss_last_activity := 10\<rparr>]\<rparr>,
          Inr server_demo_user)"
proof -
  have h: "\<not> db_fault (demo_env 10 0 [])"
    "distinct (map s_session_token (user_sessions demo_logged_in))"
    "distinct (map u_id (users demo_logged_in))"
    by (simp_all add: demo_env_def demo_logged_in_state)
  have c: "demo_session \<in> set (user_sessions demo_logged_in) \<and> s_session_token demo_session = ''token-1''
      \<and> s_is_active demo_session \<and> demo_user \<in> set (users demo_logged_in)
      \<and> u_id demo_user = s_user_id demo_session
      \<and> now (demo_env 10 0 []) \<le> s_expires_at demo_session"
    by (simp add: demo_logged_in_state) (simp add: demo_session_def demo_user_def demo_env_def)
  have sh: "\<not> mongo_fault (server_demo_env 10 0 [] ''x-1'')
      \<and> distinct (map ss_session_token (sv_sessions server_demo_logged_in))
      \<and> distinct (map su_id (sv_users server_demo_logged_in))"
    by (simp add: server_demo_env_def sv_state_demo_logged_in)
  have sc: "server_demo_session \<in> set (sv_sessions server_demo_logged_in)
      \<and> ss_session_token server_demo_session = ''token-1'' \<and> ss_is_active server_demo_session
      \<and> server_demo_user \<in> set (sv_users server_demo_logged_in)
      \<and> su_id server_demo_user = ss_user_id server_demo_session
      \<and> utcnow (server_demo_env 10 0 [] ''x-1'') < ss_expires_at server_demo_session"
    by (simp add: sv_state_demo_logged_in)
      (simp add: server_demo_session_def server_demo_user_def server_demo_env_def)
  show ?thesis
    using validate_session_spec [OF h, where tok = "''token-1''" and x = demo_session
        and u = demo_user and be = "server_demo_env 10 0 [] ''x-1''"
        and b = server_demo_logged_in and btok = "''token-1''" and y = server_demo_session
        and v = server_demo_user] c h sh sc
    by (simp add: demo_logged_in_state sv_state_demo_logged_in)
      (simp add: demo_env_def server_demo_env_def)
qed

text \<open>
  In \<open>EnterpriseAuth\<close> a session that expires exactly at the current time is accepted,
  although its \<open>expires_at\<close> is not later than the current time. In the backend a session
  that has expired is refused, and is still active afterwards.
\<close>

theorem validate_session_spec_counterexample:
  "user_sessions demo_logged_in = [demo_session]
   \<and> s_session_token demo_session = ''token-1''
   \<and> \<not> now (demo_env 28800000003 0 []) < s_expires_at demo_session
   \<and> success (snd (validate_session (demo_env 28800000003 0 []) demo_logged_in ''token-1''))
   \<and> sv_sessions server_demo_logged_in = [server_demo_session]
   \<and> ss_session_token server_demo_session = ''token-1'' \<and> ss_is_active server_demo_session
   \<and> utcnow (server_demo_env 28800000004 0 [] ''x-1'') > ss_expires_at server_demo_session
   \<and> snd (server_validate_session (server_demo_env 28800000004 0 [] ''x-1'')
            server_demo_logged_in ''token-1'')
       = Inl \<lparr>status_code = 401, detail = ''Authentication failed''\<rparr>
   \<and> map ss_is_active
        (sv_sessions (fst (server_validate_session (server_demo_env 28800000004 0 [] ''x-1'')
                             server_demo_logged_in ''token-1'')))
       = [True]"
proof -
  have "select_session demo_logged_in ''token-1'' = Some (demo_session, demo_user)"
    by (simp add: select_session_def demo_logged_in_state) (simp add: demo_session_def demo_user_def)
  moreover have "\<not> db_fault (demo_env 28800000003 0 [])" by (simp add: demo_env_def)
  ultimately have "validate_session (demo_env 28800000003 0 []) demo_logged_in ''token-1'' =
      (if now (demo_env 28800000003 0 []) > s_expires_at demo_session
           then (demo_logged_in\<lparr>user_sessions :=
                    map (\<lambda>y. if s_session_token y = ''token-1'' then y\<lparr>s_is_active := False\<rparr> else y)
                      (user_sessions demo_logged_in)\<rparr>,
                 failure ''Session expired. Please login again.'')
           else (demo_logged_in\<lparr>user_sessions :=
                    map (\<lambda>y. if s_session_token y = ''token-1''
                              then y\<lparr>s_last_activity := current_timestamp (demo_env 28800000003 0 [])\<rparr> else y)
                      (user_sessions demo_logged_in)\<rparr>,
                 \<lparr>success = True, message = None, r_user_id = None,
                  r_expires_in_minutes = None, r_session_token = None,
                  r_user_data = Some
                    \<lparr>ud_user_id = s_user_id demo_session, ud_email = u_email demo_user,
                     ud_full_name = u_full_name demo_user, ud_department = u_department demo_user,
                     ud_company_domain = u_company_domain demo_user,
                     ud_session_expires = s_expires_at demo_session\<rparr>\<rparr>))"
    by (intro validate_session_selected)
  then have auth: "user_sessions demo_logged_in = [demo_session]
   \<and> s_session_token demo_session = ''token-1''
   \<and> \<not> now (demo_env 28800000003 0 []) < s_expires_at demo_session
   \<and> success (snd (validate_session (demo_env 28800000003 0 []) demo_logged_in ''token-1''))"
    by (simp add: demo_logged_in_state) (simp add: demo_session_def demo_env_def)
  have backend: "sv_sessions server_demo_logged_in = [server_demo_session]
   \<and> ss_session_token server_demo_session = ''token-1'' \<and> ss_is_active server_demo_session
   \<and> utcnow (server_demo_env 28800000004 0 [] ''x-1'') > ss_expires_at server_demo_session
   \<and> snd (server_validate_session (server_demo_env 28800000004 0 [] ''x-1'')
            server_demo_logged_in ''token-1'')
       = Inl \<lparr>status_code = 401, detail = ''Authentication failed''\<rparr>
   \<and> map ss_is_active
        (sv_sessions (fst (server_validate_session (server_demo_env 28800000004 0 [] ''x-1'')
                             server_demo_logged_in ''token-1'')))
       = [True]"
    by (simp add: server_validate_session_def sv_state_demo_logged_in)
      (simp add: server_demo_session_def server_demo_env_def)
  show ?thesis using auth backend by blast
qed

section \<open>Errors are returned\<close>

text \<open>
  C3, as the code has it: every call of \<open>register_user\<close>, \<open>generate_otp\<close>, \<open>verify_otp\<close>,
  \<open>validate_session\<close> and \<open>logout_user\<close> returns a dictionary, whatever the input and whether
  or not the database fails; when the database fails, the dictionary has \<open>success = False\<close>
  and a message, and the store is as it was before the call (nothing was tried a second
  time). \<open>init_database\<close> is the exception: it raises the error again.
\<close>

theorem errors_are_returned:
  assumes "op \<noteq> InitDatabase"
  shows "\<exists>s' r. call e s op = Inr (s', Some r)
           \<and> (db_fault e \<longrightarrow> s' = s \<and> \<not> success r \<and> message r \<noteq> None)"
proof (cases op)
  case InitDatabase
  with assms show ?thesis by simp
next
  case (RegisterUser em fn d)
  show ?thesis unfolding RegisterUser using register_user_fault [of e s em fn d]
    by (cases "register_user e s em fn d") auto
next
  case (GenerateOtp em)
  show ?thesis unfolding GenerateOtp using generate_otp_fault [of e s em]
    by (cases "generate_otp e s em") auto
next
  case (VerifyOtp em c)
  show ?thesis unfolding VerifyOtp using verify_otp_fault [of e s em c]
    by (cases "verify_otp e s em c") (auto simp: failure_def)
next
  case (ValidateSession t)
  show ?thesis unfolding ValidateSession using validate_session_fault [of e s t]
    by (cases "validate_session e s t") (auto simp: failure_def)
next
  case (LogoutUser t)
  show ?thesis unfolding LogoutUser using logout_user_fault [of e s t]
    by (cases "logout_user e s t") (auto simp: failure_def)
qed

theorem errors_are_returned_witness:
  "VerifyOtp demo_email ''100000'' \<noteq> InitDatabase \<and> db_fault demo_faulty_env
   \<and> call demo_faulty_env demo_issued (VerifyOtp demo_email ''100000'')
       = Inr (demo_issued, Some (failure ''Login failed. Please try again.''))"
  using errors_are_returned [of "VerifyOtp demo_email ''100000''" demo_faulty_env demo_issued]
  by (simp add: verify_otp_fault demo_faulty_env_def)

text \<open>\<open>init_database\<close> with a failing database: the exception reaches the caller.\<close>

theorem errors_are_returned_counterexample:
  "db_fault demo_faulty_env
   \<and> call demo_faulty_env empty_database InitDatabase = Inl OperationalError"
  by (simp add: init_database_def demo_faulty_env_def)

section \<open>The domain restriction\<close>

text \<open>
  C2 at an address with two \<open>@\<close> signs: the text after the first \<open>@\<close> is
  \<open>hssmedicine.com@evil.example\<close> and the text after the last is \<open>evil.example\<close>; neither is
  an allowed domain, yet the address is accepted, a user is registered under it and a code
  is stored for it. The backend's check of the ending refuses the same address.
\<close>

theorem domain_check_accepts_second_at:
  "validate_email_domain demo_bypass_email = (True, ''hssmedicine.com'')
   \<and> users demo_initialised = [] \<and> otp_codes demo_initialised = []
   \<and> success (snd (register_user (demo_env 1 0 []) demo_initialised demo_bypass_email ''M'' ''X''))
   \<and> map u_email
        (users (fst (register_user (demo_env 1 0 []) demo_initialised demo_bypass_email ''M'' ''X'')))
       = [demo_bypass_email]
   \<and> success (snd (generate_otp (demo_env 2 0 []) demo_initialised demo_bypass_email))
   \<and> map o_email (otp_codes (fst (generate_otp (demo_env 2 0 []) demo_initialised demo_bypass_email)))
       = [demo_bypass_email]
   \<and> server_register_user (server_demo_env 1 0 [] ''user-1'') server_empty demo_bypass_email
         ''M'' ''X''
       = (server_empty,
          Inl \<lparr>status_code = 400,
               detail = ''Access restricted to hssmedicine.com employees only''\<rparr>)"
proof -
  have "\<not> endswith demo_bypass_email (''@'' @ COMPANY_DOMAIN)"
    by (simp add: endswith_def demo_bypass_email_def COMPANY_DOMAIN_def)
  then have "server_register_user (server_demo_env 1 0 [] ''user-1'') server_empty demo_bypass_email
         ''M'' ''X''
       = (server_empty,
          Inl \<lparr>status_code = 400,
               detail = ''Access restricted to hssmedicine.com employees only''\<rparr>)"
    by (simp add: server_register_user_def COMPANY_DOMAIN_def)
  then show ?thesis
    by (simp add: bypass_valid demo_initialised_def eval_simps lower_bypass split_bypass)
qed


section \<open>Audio concatenation\<close>





section \<open>The order of the pipeline\<close>

text \<open>
  The stages run in one order, each at most once, and a run ends after recording, after
  transcription, after summarising or after delivery: never between merging and
  transcription.
\<close>

lemma main_stops:
  "main e = [Record] \<or> main e = [Record, Merge, Transcribe]
   \<or> main e = [Record, Merge, Transcribe, Summarize]
   \<or> main e = [Record, Merge, Transcribe, Summarize, Deliver]"
  by (simp add: main_def split: sum.splits prod.splits option.splits)

text \<open>
  C6 at a run whose clip cannot be read when merging starts: \<open>merge_audio_clips\<close> returns
  \<open>None\<close>, and \<open>main\<close> goes on to call the transcription stage with it before it stops.
\<close>

theorem main_transcribes_after_failed_merge:
  "record_multiple_clips demo_pipeline = Inr [''audio_clips/clip_1.wav'']
   \<and> snd (merge_audio_clips (files demo_pipeline) [''audio_clips/clip_1.wav'']) = None
   \<and> main demo_pipeline = [Record, Merge, Transcribe]"
proof -
  have m: "merge_audio_clips (files demo_pipeline) [''audio_clips/clip_1.wav'']
      = (files demo_pipeline, None)"
    by (simp add: merge_audio_clips_def wave_open_def demo_pipeline_def)
  have r: "record_multiple_clips demo_pipeline = Inr [''audio_clips/clip_1.wav'']"
    by (simp add: demo_pipeline_def)
  show ?thesis by (simp add: main_def r m transcribe_audio_def)
qed

end
